theory Spec2Isabelle
  imports Main
begin

section \<open>The reconnecting WebSocket client of src/lib/Socket/Client/websocket.js\<close>

text \<open>
  The class \<open>WebSocketClient\<close> is embedded as a record of its fields together with the
  part of the environment its methods act on: the pending timers of the host
  (\<open>setTimeout\<close>, \<open>setInterval\<close>), the socket objects it has constructed, and a trace of
  everything it does that an outside observer can see (emitted events, completion
  callbacks, calls on the underlying socket, timers set and cleared).

  Every method and every handler closure of the source is one function from world to
  world. The handlers are closures over \<open>this\<close>: they are attached to the socket object
  that \<open>connect\<close> constructs and they stay attached to it, so an event of a socket acts on
  the client whether or not the client still holds that socket in \<open>this.socket\<close>.

  Assumptions on the collaborators, none of which is under src/:
  \<^item> listeners and completion callbacks return normally and do not call back into the
    client (their invocation is recorded in the trace);
  \<^item> the constructor of the underlying socket and its \<open>close()\<close> return normally, and
    the underlying socket delivers its events asynchronously (never from inside a call);
  \<^item> timer handles are truthy; timestamps are integers, and the configured numbers are
    natural numbers within the range in which the arithmetic of the source is exact.
\<close>

subsection \<open>Data\<close>

datatype error =
    WebSocketNotOpen        \<comment> \<open>\<open>new Error('WebSocket is not open')\<close>\<close>
  | ConnectionTimeout       \<comment> \<open>\<open>new Error('Connection timeout')\<close>\<close>
  | SendThrew nat           \<comment> \<open>whatever the underlying \<open>send\<close> threw\<close>
  | SocketErrorEvent nat    \<comment> \<open>the event object of an underlying \<open>error\<close> event\<close>
  | TypeError               \<comment> \<open>a method call on \<open>null\<close>\<close>

datatype event =
    EvOpen
  | EvMessage string
  | EvError error
  | EvClose nat string
  | EvReconnecting nat nat
  | EvReconnectFailed nat
  | EvHeartbeatTimeout

text \<open>
  A pending timer and the callback it runs: the reconnect timer with its delay, the
  connect-timeout timer with its delay, or the repeating heartbeat timer with its period.
\<close>

datatype timer =
    ReconnectTimeout nat
  | ConnectTimeout nat
  | PingInterval nat

datatype effect =
    Emit event
  | Callback nat "error option"
  | SocketNew nat
  | SocketSend nat string "error option"
  | SocketClose nat
  | TimerSet nat timer
  | TimerCleared nat
  | Uncaught error

record config =
  cfg_maxReconnectAttempts :: "nat option"
  cfg_reconnectDelay :: "nat option"
  cfg_maxReconnectDelay :: "nat option"
  cfg_maxQueueSize :: "nat option"
  cfg_queueMessages :: bool
  cfg_connectTimeoutMs :: "nat option"
  cfg_heartbeatInterval :: "nat option"
  cfg_heartbeatTimeout :: "nat option"

record world =
  \<comment> \<open>the fields of the client object\<close>
  socket :: "nat option"
  readyState :: nat
  reconnectAttempts :: nat
  maxReconnectAttempts :: nat
  reconnectDelay :: nat
  maxReconnectDelay :: nat
  reconnectTimer :: "nat option"
  shouldReconnect :: bool
  messageQueue :: "(string \<times> nat option) list"
  maxQueueSize :: nat
  pingInterval :: "nat option"
  pingTimeout :: "nat option"
  lastPongTime :: "int option"
  config :: config
  \<comment> \<open>the environment\<close>
  timers :: "(nat \<times> timer) list"
  nextTimer :: nat
  nextSocket :: nat
  connectTimeoutOf :: "(nat \<times> nat) list"
  trace :: "effect list"

subsection \<open>Optional numbers of the configuration\<close>

text \<open>
  A configured number may be absent (\<open>None\<close>); absent and 0 are falsy. \<open>orElse x d\<close> is
  \<open>x || d\<close>.
\<close>

definition orElse :: "nat option \<Rightarrow> nat \<Rightarrow> nat" where
  "orElse x d = (case x of None \<Rightarrow> d | Some n \<Rightarrow> if 0 < n then n else d)"

subsection \<open>The collaborators\<close>

text \<open>
  Modelled from the spec: \<open>emit\<close> is inherited from \<open>AbstractSocketClient\<close> (types.js),
  which is not under src/. The spec describes it as the event-emission mechanism that
  notifies external listeners; the emission is appended to the trace.
\<close>

definition emit :: "event \<Rightarrow> world \<Rightarrow> world" where
  "emit e w = w\<lparr>trace := trace w @ [Emit e]\<rparr>"

definition logEffect :: "effect \<Rightarrow> world \<Rightarrow> world" where
  "logEffect x w = w\<lparr>trace := trace w @ [x]\<rparr>"

text \<open>
  \<open>setTimeout\<close> and \<open>setInterval\<close>: the handle returned is \<open>nextTimer\<close> of the world the
  timer is set in. \<open>clearTimeout\<close> and \<open>clearInterval\<close> remove the timer (clearing a timer
  that is no longer pending does nothing but is recorded).
\<close>

definition setTimer :: "timer \<Rightarrow> world \<Rightarrow> world" where
  "setTimer k w =
     w\<lparr>timers := timers w @ [(nextTimer w, k)],
       nextTimer := Suc (nextTimer w),
       trace := trace w @ [TimerSet (nextTimer w) k]\<rparr>"

definition clearTimer :: "nat \<Rightarrow> world \<Rightarrow> world" where
  "clearTimer t w =
     w\<lparr>timers := filter (\<lambda>p. fst p \<noteq> t) (timers w),
       trace := trace w @ [TimerCleared t]\<rparr>"

text \<open>\<open>if (cb) cb(err)\<close>\<close>

definition callback :: "nat option \<Rightarrow> error option \<Rightarrow> world \<Rightarrow> world" where
  "callback cb e w = (case cb of None \<Rightarrow> w | Some c \<Rightarrow> logEffect (Callback c e) w)"

subsection \<open>The constructor and the state predicates\<close>

definition constructor :: "config \<Rightarrow> world" where
  "constructor cfg =
     \<lparr>socket = None,
      readyState = 3,
      reconnectAttempts = 0,
      maxReconnectAttempts = orElse (cfg_maxReconnectAttempts cfg) 5,
      reconnectDelay = orElse (cfg_reconnectDelay cfg) 1000,
      maxReconnectDelay = orElse (cfg_maxReconnectDelay cfg) 30000,
      reconnectTimer = None,
      shouldReconnect = False,
      messageQueue = [],
      maxQueueSize = orElse (cfg_maxQueueSize cfg) 100,
      pingInterval = None,
      pingTimeout = None,
      lastPongTime = None,
      config = cfg,
      timers = [],
      nextTimer = 0,
      nextSocket = 0,
      connectTimeoutOf = [],
      trace = []\<rparr>"

definition isOpen :: "world \<Rightarrow> bool" where
  "isOpen w = (readyState w = 1)"

definition isClosed :: "world \<Rightarrow> bool" where
  "isClosed w = (socket w = None \<or> readyState w = 3)"

definition isClosing :: "world \<Rightarrow> bool" where
  "isClosing w = (socket w = None \<or> readyState w = 2)"

definition isConnecting :: "world \<Rightarrow> bool" where
  "isConnecting w = (readyState w = 0)"

subsection \<open>Timers of the client\<close>

definition clearReconnectTimer :: "world \<Rightarrow> world" where
  "clearReconnectTimer w =
     (case reconnectTimer w of
        None \<Rightarrow> w
      | Some t \<Rightarrow> (clearTimer t w)\<lparr>reconnectTimer := None\<rparr>)"

definition stopHeartbeat :: "world \<Rightarrow> world" where
  "stopHeartbeat w =
     (let w1 = (case pingInterval w of
                  None \<Rightarrow> w
                | Some t \<Rightarrow> (clearTimer t w)\<lparr>pingInterval := None\<rparr>)
      in case pingTimeout w1 of
           None \<Rightarrow> w1
         | Some t \<Rightarrow> (clearTimer t w1)\<lparr>pingTimeout := None\<rparr>)"

definition scheduleReconnect :: "world \<Rightarrow> world" where
  "scheduleReconnect w =
     (let w1 = clearReconnectTimer w;
          delay = min (reconnectDelay w1 * 2 ^ reconnectAttempts w1) (maxReconnectDelay w1);
          w2 = w1\<lparr>reconnectAttempts := reconnectAttempts w1 + 1\<rparr>;
          w3 = emit (EvReconnecting (reconnectAttempts w2) delay) w2
      in (setTimer (ReconnectTimeout delay) w3)\<lparr>reconnectTimer := Some (nextTimer w3)\<rparr>)"

text \<open>
  \<open>startHeartbeat\<close>; \<open>now\<close> is what \<open>Date.now()\<close> returns.
\<close>

definition startHeartbeat :: "int \<Rightarrow> world \<Rightarrow> world" where
  "startHeartbeat now w =
     (case cfg_heartbeatInterval (config w) of
        None \<Rightarrow> w
      | Some ms \<Rightarrow>
          if ms = 0 then w
          else
            let w1 = stopHeartbeat w;
                w2 = w1\<lparr>lastPongTime := Some now\<rparr>
            in (setTimer (PingInterval ms) w2)\<lparr>pingInterval := Some (nextTimer w2)\<rparr>)"

text \<open>
  The callback of the heartbeat interval. \<open>Date.now() - this.lastPongTime\<close> reads
  \<open>null\<close> as 0. When the client holds no socket, \<open>this.socket.close()\<close> throws a
  TypeError after the emission: the left summand carries the error and the world the
  throw leaves behind.
\<close>

definition heartbeatTick :: "int \<Rightarrow> world \<Rightarrow> (error \<times> world) + world" where
  "heartbeatTick now w =
     (if readyState w = 1 then
        let timeSinceLastPong = now - (case lastPongTime w of None \<Rightarrow> 0 | Some t \<Rightarrow> t)
        in if timeSinceLastPong > int (orElse (cfg_heartbeatTimeout (config w)) 30000) then
             let w1 = emit EvHeartbeatTimeout w
             in (case socket w1 of
                   None \<Rightarrow> Inl (TypeError, w1)
                 | Some s \<Rightarrow> Inr (logEffect (SocketClose s) w1))
           else Inr w
      else Inr w)"

subsection \<open>connect, close, send\<close>

text \<open>
  \<open>connect\<close>: the new socket object is \<open>nextSocket\<close>. The four handlers it attaches are
  the functions \<open>onopen\<close>, \<open>onmessage\<close>, \<open>onerror\<close> and \<open>onclose\<close> below. The URL and the
  headers do not influence the client's state and are left out. With a connect timeout
  configured, the timer is set and the socket's \<open>onopen\<close> is wrapped; the wrapper's
  closure variable \<open>timeout\<close> is kept in \<open>connectTimeoutOf\<close> under the socket.
\<close>

definition connect :: "world \<Rightarrow> world" where
  "connect w =
     (if socket w \<noteq> None then w
      else
        let w1 = w\<lparr>shouldReconnect := True, readyState := 0\<rparr>;
            s = nextSocket w1;
            w2 = (logEffect (SocketNew s) w1)\<lparr>socket := Some s, nextSocket := Suc s\<rparr>
        in case cfg_connectTimeoutMs (config w2) of
             None \<Rightarrow> w2
           | Some ms \<Rightarrow>
               if ms = 0 then w2
               else (setTimer (ConnectTimeout ms) w2)
                      \<lparr>connectTimeoutOf := (s, nextTimer w2) # connectTimeoutOf w2\<rparr>)"

definition close :: "world \<Rightarrow> world" where
  "close w =
     (case socket w of
        None \<Rightarrow> w
      | Some s \<Rightarrow>
          let w1 = w\<lparr>shouldReconnect := False\<rparr>;
              w2 = clearReconnectTimer w1;
              w3 = stopHeartbeat w2;
              w4 = w3\<lparr>readyState := 2\<rparr>;
              w5 = logEffect (SocketClose s) w4;
              w6 = w5\<lparr>socket := None\<rparr>
          in w6\<lparr>readyState := 3\<rparr>)"

text \<open>
  \<open>send(str, cb)\<close>; \<open>r\<close> is what the underlying \<open>this.socket.send(str)\<close> does if it is
  reached: \<open>None\<close> when it returns, \<open>Some e\<close> when it throws \<open>e\<close>. The call is recorded with
  its outcome. In the second branch \<open>this.socket\<close> is not \<open>null\<close>.
\<close>

definition send :: "string \<Rightarrow> nat option \<Rightarrow> error option \<Rightarrow> world \<Rightarrow> world \<times> bool" where
  "send str cb r w =
     (if socket w = None \<or> readyState w \<noteq> 1 then
        if cfg_queueMessages (config w) \<and> length (messageQueue w) < maxQueueSize w
        then (w\<lparr>messageQueue := messageQueue w @ [(str, cb)]\<rparr>, True)
        else (callback cb (Some WebSocketNotOpen) w, False)
      else
        let s = the (socket w)
        in case r of
             None \<Rightarrow> (callback cb None (logEffect (SocketSend s str None) w), True)
           | Some e \<Rightarrow> (callback cb (Some e) (logEffect (SocketSend s str (Some e)) w), False))"

text \<open>
  \<open>flushMessageQueue\<close>: the \<open>while\<close> loop. \<open>rs\<close> lists what the underlying \<open>send\<close> does
  in the successive iterations (it returns normally once the list is used up). The loop
  need not terminate, so not returning is the value \<open>None\<close>.
\<close>

partial_function (option) flushMessageQueue :: "error option list \<Rightarrow> world \<Rightarrow> world option" where
  "flushMessageQueue rs w =
     (if messageQueue w \<noteq> [] \<and> readyState w = 1 then
        (case messageQueue w of
           [] \<Rightarrow> Some w
         | (str, cb) # rest \<Rightarrow>
             flushMessageQueue (tl rs)
               (fst (send str cb (case rs of [] \<Rightarrow> None | r # _ \<Rightarrow> r) (w\<lparr>messageQueue := rest\<rparr>))))
      else Some w)"

definition resetReconnectAttempts :: "world \<Rightarrow> world" where
  "resetReconnectAttempts w = w\<lparr>reconnectAttempts := 0\<rparr>"

subsection \<open>The handlers attached by connect\<close>

text \<open>
  \<open>onopen\<close> of the socket \<open>s\<close>. Where \<open>connect\<close> wrapped the handler, the wrapper first
  clears the timeout of its own \<open>connect()\<close> call.
\<close>

definition onopen :: "nat \<Rightarrow> int \<Rightarrow> error option list \<Rightarrow> world \<Rightarrow> world option" where
  "onopen s now rs w =
     (let w0 = (case map_of (connectTimeoutOf w) s of
                  None \<Rightarrow> w
                | Some t \<Rightarrow> clearTimer t w);
          w1 = w0\<lparr>readyState := 1\<rparr>;
          w2 = w1\<lparr>reconnectAttempts := 0\<rparr>;
          w3 = emit EvOpen w2
      in case flushMessageQueue rs w3 of
           None \<Rightarrow> None
         | Some w4 \<Rightarrow> Some (startHeartbeat now w4))"

definition onmessage :: "string \<Rightarrow> int \<Rightarrow> world \<Rightarrow> world" where
  "onmessage data now w = emit (EvMessage data) (w\<lparr>lastPongTime := Some now\<rparr>)"

definition onerror :: "nat \<Rightarrow> world \<Rightarrow> world" where
  "onerror ev w = emit (EvError (SocketErrorEvent ev)) w"

definition onclose :: "nat \<Rightarrow> string \<Rightarrow> world \<Rightarrow> world" where
  "onclose code reason w =
     (let w1 = w\<lparr>readyState := 3\<rparr>;
          w2 = stopHeartbeat w1;
          w3 = emit (EvClose code reason) w2;
          w4 = w3\<lparr>socket := None\<rparr>
      in if shouldReconnect w4 \<and> reconnectAttempts w4 < maxReconnectAttempts w4
         then scheduleReconnect w4
         else if reconnectAttempts w4 \<ge> maxReconnectAttempts w4
         then emit (EvReconnectFailed (reconnectAttempts w4)) w4
         else w4)"

text \<open>The callback of the connect-timeout timer.\<close>

definition connectTimeoutFired :: "world \<Rightarrow> world" where
  "connectTimeoutFired w =
     (if readyState w = 0
      then emit (EvError ConnectionTimeout) (close w)
      else w)"

text \<open>
  A timer that fires once is no longer pending when its callback runs.
\<close>

definition expire :: "nat \<Rightarrow> world \<Rightarrow> world" where
  "expire t w = w\<lparr>timers := filter (\<lambda>p. fst p \<noteq> t) (timers w)\<rparr>"

subsection \<open>The event loop\<close>

text \<open>
  One input is one public call, one event of a socket the client has constructed, or one
  pending timer firing; each runs to completion before the next. An input carries what
  the environment contributes to it: the clock, and what the underlying \<open>send\<close> does.
  An event of a socket that was never constructed and a timer that is not pending do
  not happen. An exception that escapes a timer callback is recorded as uncaught.
  \<open>step\<close> is \<open>None\<close> when the handler never returns.
\<close>

datatype input =
    CallConnect
  | CallClose
  | CallSend string "nat option" "error option"
  | CallResetReconnectAttempts
  | SockOpen nat int "error option list"
  | SockMessage nat string int
  | SockError nat nat
  | SockClose nat nat string
  | TimerFire nat int

fun step :: "world \<Rightarrow> input \<Rightarrow> world option" where
  "step w CallConnect = Some (connect w)"
| "step w CallClose = Some (close w)"
| "step w (CallSend str cb r) = Some (fst (send str cb r w))"
| "step w CallResetReconnectAttempts = Some (resetReconnectAttempts w)"
| "step w (SockOpen s now rs) = (if s < nextSocket w then onopen s now rs w else Some w)"
| "step w (SockMessage s data now) = (if s < nextSocket w then Some (onmessage data now w) else Some w)"
| "step w (SockError s ev) = (if s < nextSocket w then Some (onerror ev w) else Some w)"
| "step w (SockClose s code reason) = (if s < nextSocket w then Some (onclose code reason w) else Some w)"
| "step w (TimerFire t now) =
     (case map_of (timers w) t of
        None \<Rightarrow> Some w
      | Some (ReconnectTimeout d) \<Rightarrow> Some (connect (expire t w))
      | Some (ConnectTimeout ms) \<Rightarrow> Some (connectTimeoutFired (expire t w))
      | Some (PingInterval ms) \<Rightarrow>
          Some (case heartbeatTick now w of
                  Inl (e, w') \<Rightarrow> logEffect (Uncaught e) w'
                | Inr w' \<Rightarrow> w'))"

fun run :: "world \<Rightarrow> input list \<Rightarrow> world option" where
  "run w [] = Some w"
| "run w (i # is) = (case step w i of None \<Rightarrow> None | Some w' \<Rightarrow> run w' is)"

subsection \<open>What the drain does, in the words of the specification\<close>

text \<open>
  The effects of draining the queue \<open>q\<close> through the handle \<open>h\<close>, oldest entry first: each
  entry is handed to the underlying socket once, and its callback (if it has one) is
  called with no error, or with the error the underlying \<open>send\<close> threw for that entry.
\<close>

fun drainEffects :: "nat \<Rightarrow> (string \<times> nat option) list \<Rightarrow> error option list \<Rightarrow> effect list" where
  "drainEffects h [] rs = []"
| "drainEffects h ((str, cb) # q) rs =
     (let r = (case rs of [] \<Rightarrow> None | r # _ \<Rightarrow> r)
      in SocketSend h str r # (case cb of None \<Rightarrow> [] | Some c \<Rightarrow> [Callback c r]))
     @ drainEffects h q (tl rs)"

subsection \<open>Predicates on worlds\<close>

text \<open>\<open>framed w y\<close>: \<open>y\<close> differs from \<open>w\<close> in the queue and the trace only, and its queue is no longer.\<close>

definition framed :: "world \<Rightarrow> world \<Rightarrow> bool" where
  "framed w y = (y = w\<lparr>messageQueue := messageQueue y, trace := trace y\<rparr> \<and>
     length (messageQueue y) \<le> length (messageQueue w))"

fun isReconnectTimeout :: "timer \<Rightarrow> bool" where
  "isReconnectTimeout (ReconnectTimeout d) = True"
| "isReconnectTimeout (ConnectTimeout ms) = False"
| "isReconnectTimeout (PingInterval ms) = False"

text \<open>The pending timers whose callback calls \<open>connect()\<close>.\<close>

definition reconnectPending :: "world \<Rightarrow> (nat \<times> timer) list" where
  "reconnectPending w = filter (\<lambda>p. isReconnectTimeout (snd p)) (timers w)"

text \<open>
  What holds of the client of configuration \<open>cfg\<close> whenever no handler is running.
\<close>

definition quiescent :: "config \<Rightarrow> world \<Rightarrow> bool" where
  "quiescent cfg w =
     (config w = cfg \<and>
      maxQueueSize w = orElse (cfg_maxQueueSize cfg) 100 \<and>
      length (messageQueue w) \<le> maxQueueSize w \<and>
      (messageQueue w \<noteq> [] \<longrightarrow> cfg_queueMessages cfg) \<and>
      (readyState w = 0 \<or> readyState w = 1 \<or> readyState w = 3) \<and>
      (readyState w = 3 \<longrightarrow> socket w = None) \<and>
      (readyState w = 0 \<longrightarrow> socket w \<noteq> None) \<and>
      (\<forall>p \<in> set (timers w). isReconnectTimeout (snd p) \<longrightarrow> reconnectTimer w = Some (fst p)))"

subsection \<open>Reading a world\<close>

text \<open>The delay of the pending timer that \<open>reconnectTimer\<close> refers to.\<close>

definition scheduledDelay :: "world \<Rightarrow> nat option" where
  "scheduledDelay w =
     (case reconnectTimer w of
        None \<Rightarrow> None
      | Some t \<Rightarrow>
          (case map_of (timers w) t of
             Some (ReconnectTimeout d) \<Rightarrow> Some d
           | _ \<Rightarrow> None))"

text \<open>The configuration that sets nothing: every default applies.\<close>

definition defaults :: config where
  "defaults =
     \<lparr>cfg_maxReconnectAttempts = None,
      cfg_reconnectDelay = None,
      cfg_maxReconnectDelay = None,
      cfg_maxQueueSize = None,
      cfg_queueMessages = False,
      cfg_connectTimeoutMs = None,
      cfg_heartbeatInterval = None,
      cfg_heartbeatTimeout = None\<rparr>"

text \<open>Queuing enabled with room for two messages; everything else by default.\<close>

definition twoSlots :: config where
  "twoSlots = defaults\<lparr>cfg_queueMessages := True, cfg_maxQueueSize := Some 2\<rparr>"

text \<open>The world \<open>heartbeatTick\<close> leaves behind, whether it returns or throws.\<close>

definition afterTick :: "(error \<times> world) + world \<Rightarrow> world" where
  "afterTick x = (case x of Inl (e, w) \<Rightarrow> w | Inr w \<Rightarrow> w)"

text \<open>The time since the last inbound message, as the heartbeat callback computes it.\<close>

definition timeSinceLastPong :: "int \<Rightarrow> world \<Rightarrow> int" where
  "timeSinceLastPong now w = now - (case lastPongTime w of None \<Rightarrow> 0 | Some t \<Rightarrow> t)"

text \<open>A heartbeat every 10000 with the default timeout; everything else by default.\<close>

definition withHeartbeat :: config where
  "withHeartbeat = defaults\<lparr>cfg_heartbeatInterval := Some 10000\<rparr>"

text \<open>
  The client with a heartbeat configured, once its first connection has opened at time 0.
\<close>

definition openedWithHeartbeat :: world where
  "openedWithHeartbeat =
     (constructor withHeartbeat)
       \<lparr>socket := Some 0, readyState := 1, shouldReconnect := True,
        pingInterval := Some 0, lastPongTime := Some 0,
        timers := [(0, PingInterval 10000)], nextTimer := 1, nextSocket := 1,
        trace := [SocketNew 0, Emit EvOpen, TimerSet 0 (PingInterval 10000)]\<rparr>"

text \<open>
  \<open>opensHeld w is\<close>: in the run of \<open>is\<close> from \<open>w\<close>, every \<open>open\<close> event is delivered while the
  client holds a handle.
\<close>

fun opensHeld :: "world \<Rightarrow> input list \<Rightarrow> bool" where
  "opensHeld w [] = True"
| "opensHeld w (i # is) =
     ((case i of SockOpen s now rs \<Rightarrow> socket w \<noteq> None | _ \<Rightarrow> True) \<and>
      (case step w i of None \<Rightarrow> True | Some w' \<Rightarrow> opensHeld w' is))"

text \<open>
  \<open>dormant w\<close>: no handle, no intent to reconnect, and no timer pending whose callback
  would call \<open>connect()\<close>.
\<close>

definition dormant :: "world \<Rightarrow> bool" where
  "dormant w = (socket w = None \<and> \<not> shouldReconnect w \<and> reconnectPending w = [])"

text \<open>Queuing enabled; everything else by default.\<close>

definition queuing :: config where
  "queuing = defaults\<lparr>cfg_queueMessages := True\<rparr>"

text \<open>A connect timeout of 5000; everything else by default.\<close>

definition withConnectTimeout :: config where
  "withConnectTimeout = defaults\<lparr>cfg_connectTimeoutMs := Some 5000\<rparr>"

text \<open>
  Restarting a connection: \<open>close()\<close> and \<open>connect()\<close> in the same turn. The close event
  of the first socket (0), which its \<open>close()\<close> brings about, arrives afterwards.
\<close>

definition restart :: "input list" where
  "restart = [CallConnect, CallClose, CallConnect, SockClose 0 1000 []]"

text \<open>The world after \<open>restart\<close> on a client with queuing that holds one queued message.\<close>

definition restartedQueued :: world where
  "restartedQueued =
     (constructor queuing)
       \<lparr>socket := None, readyState := 3, reconnectAttempts := 1, reconnectTimer := Some 0,
        shouldReconnect := True, messageQueue := [(''a'', None)],
        timers := [(0, ReconnectTimeout 1000)], nextTimer := 1, nextSocket := 2,
        trace := [SocketNew 0, SocketClose 0, SocketNew 1, Emit (EvClose 1000 []),
                  Emit (EvReconnecting 1 1000), TimerSet 0 (ReconnectTimeout 1000)]\<rparr>"

text \<open>
  The world after three messages were queued on a client with queuing and \<open>connect()\<close>
  was called.
\<close>

definition connectingQueued :: world where
  "connectingQueued =
     (constructor queuing)
       \<lparr>socket := Some 0, readyState := 0, shouldReconnect := True,
        messageQueue := [(''a'', Some 1), (''b'', Some 2), (''c'', None)],
        nextSocket := 1, trace := [SocketNew 0]\<rparr>"

text \<open>The world after \<open>connect()\<close> on a new client with a connect timeout of 5000.\<close>

definition connectingWithTimeout :: world where
  "connectingWithTimeout =
     (constructor withConnectTimeout)
       \<lparr>socket := Some 0, readyState := 0, shouldReconnect := True,
        timers := [(0, ConnectTimeout 5000)], nextTimer := 1, nextSocket := 1,
        connectTimeoutOf := [(0, 0)],
        trace := [SocketNew 0, TimerSet 0 (ConnectTimeout 5000)]\<rparr>"

fun isOpenEvent :: "input \<Rightarrow> bool" where
  "isOpenEvent (SockOpen s now rs) = True"
| "isOpenEvent i = False"

fun isReconnectFailed :: "effect \<Rightarrow> bool" where
  "isReconnectFailed (Emit (EvReconnectFailed n)) = True"
| "isReconnectFailed x = False"

text \<open>How often \<open>reconnect-failed\<close> has been emitted.\<close>

definition reconnectFailedCount :: "world \<Rightarrow> nat" where
  "reconnectFailedCount w = length (filter isReconnectFailed (trace w))"

text \<open>
  \<open>failures k w\<close>: \<open>k\<close> consecutive connection failures with no open in between. \<open>k\<close> times,
  the close event of the handle held is delivered and then the reconnect timer that
  \<open>reconnectTimer\<close> refers to fires. \<open>None\<close> when there is no connection left to fail or no
  reconnect timer to fire.
\<close>

fun failures :: "nat \<Rightarrow> world \<Rightarrow> world option" where
  "failures 0 w = Some w"
| "failures (Suc k) w =
     (case failures k w of
        None \<Rightarrow> None
      | Some v \<Rightarrow>
          (case socket v of
             None \<Rightarrow> None
           | Some h \<Rightarrow>
               (case step v (SockClose h 1006 []) of
                  None \<Rightarrow> None
                | Some v1 \<Rightarrow>
                    (case reconnectTimer v1 of
                       None \<Rightarrow> None
                     | Some t \<Rightarrow> step v1 (TimerFire t 0)))))"

text \<open>
  \<open>attempting k m c v\<close>: the client holds the handle of a connection that is being
  attempted, intends to reconnect, has scheduled \<open>k\<close> reconnects of at most \<open>m\<close> since the
  last open, has no reconnect timer pending, and has emitted \<open>reconnect-failed\<close> \<open>c\<close> times.
  Timer handles and the handle held are ones the environment has issued.
\<close>

definition attempting :: "nat \<Rightarrow> nat \<Rightarrow> nat \<Rightarrow> world \<Rightarrow> bool" where
  "attempting k m c v =
     ((case socket v of None \<Rightarrow> False | Some h \<Rightarrow> h < nextSocket v) \<and>
      shouldReconnect v \<and>
      reconnectAttempts v = k \<and>
      maxReconnectAttempts v = m \<and>
      list_all (\<lambda>p. fst p < nextTimer v \<and> \<not> isReconnectTimeout (snd p)) (timers v) \<and>
      reconnectFailedCount v = c)"

text \<open>At most two reconnect attempts; everything else by default.\<close>

definition twoAttempts :: config where
  "twoAttempts = defaults\<lparr>cfg_maxReconnectAttempts := Some 2\<rparr>"

text \<open>
  The client of \<open>twoAttempts\<close> after \<open>connect()\<close>, and after both of its reconnect attempts
  were scheduled and started.
\<close>

definition firstAttempt :: world where
  "firstAttempt =
     (constructor twoAttempts)
       \<lparr>socket := Some 0, readyState := 0, shouldReconnect := True,
        nextSocket := 1, trace := [SocketNew 0]\<rparr>"

definition lastAttempt :: world where
  "lastAttempt =
     (constructor twoAttempts)
       \<lparr>socket := Some 2, readyState := 0, reconnectAttempts := 2, reconnectTimer := Some 1,
        shouldReconnect := True, nextTimer := 2, nextSocket := 3,
        trace := [SocketNew 0, Emit (EvClose 1006 []), Emit (EvReconnecting 1 1000),
                  TimerSet 0 (ReconnectTimeout 1000), SocketNew 1,
                  Emit (EvClose 1006 []), TimerCleared 0,
                  Emit (EvReconnecting 2 2000), TimerSet 1 (ReconnectTimeout 2000),
                  SocketNew 2]\<rparr>"

text \<open>
  At most one reconnect attempt and a heartbeat every 10000; everything else by default.
\<close>

definition oneAttemptHeartbeat :: config where
  "oneAttemptHeartbeat =
     defaults\<lparr>cfg_maxReconnectAttempts := Some 1, cfg_heartbeatInterval := Some 10000\<rparr>"

text \<open>
  The first connection (socket 0) fails and the reconnect timer fires at 1000, which
  constructs socket 1. The caller restarts the connection: \<open>close()\<close> and \<open>connect()\<close>,
  which constructs socket 2. The close event of socket 1 arrives afterwards, and
  socket 2 opens at 2000.
\<close>

definition orphanOpens :: "input list" where
  "orphanOpens =
     [CallConnect, SockClose 0 1006 [], TimerFire 0 1000, CallClose, CallConnect,
      SockClose 1 1000 [], SockOpen 2 2000 []]"

section \<open>Properties\<close>

subsection \<open>The drain loop\<close>

lemma flush_nil: "messageQueue w = [] \<Longrightarrow> flushMessageQueue rs w = Some w"
  by (subst flushMessageQueue.simps) simp

lemma flush_not_open: "readyState w \<noteq> 1 \<Longrightarrow> flushMessageQueue rs w = Some w"
  by (subst flushMessageQueue.simps) simp

lemma flush_held:
  "socket w = Some h \<Longrightarrow> readyState w = 1 \<Longrightarrow> messageQueue w = q \<Longrightarrow>
   flushMessageQueue rs w = Some (w\<lparr>messageQueue := [], trace := trace w @ drainEffects h q rs\<rparr>)"
proof (induction q arbitrary: w rs)
  case Nil
  then show ?case by (simp add: flush_nil)
next
  case (Cons a q)
  obtain str cb where a: "a = (str, cb)" by (cases a)
  let ?r = "case rs of [] \<Rightarrow> None | r # _ \<Rightarrow> r"
  let ?w = "fst (send str cb ?r (w\<lparr>messageQueue := q\<rparr>))"
  have unfold: "flushMessageQueue rs w = flushMessageQueue (tl rs) ?w"
    using Cons.prems a by (subst flushMessageQueue.simps) simp
  have w': "?w = w\<lparr>messageQueue := q,
      trace := trace w @ (SocketSend h str ?r # (case cb of None \<Rightarrow> [] | Some c \<Rightarrow> [Callback c ?r]))\<rparr>"
    using Cons.prems by (simp add: send_def callback_def logEffect_def split: option.splits)
  have "flushMessageQueue (tl rs) ?w =
      Some (?w\<lparr>messageQueue := [], trace := trace ?w @ drainEffects h q (tl rs)\<rparr>)"
    by (rule Cons.IH) (simp_all add: w' Cons.prems)
  then show ?case
    unfolding unfold by (simp add: w' a Let_def)
qed

text \<open>
  Without a handle every entry is queued again behind the others, and the loop goes on
  for ever.
\<close>

lemma flush_requeues:
  assumes "flushMessageQueue rs w = Some y"
  shows "\<not> (socket w = None \<and> readyState w = 1 \<and> cfg_queueMessages (config w) \<and>
      messageQueue w \<noteq> [] \<and> length (messageQueue w) \<le> maxQueueSize w)"
proof (rule flushMessageQueue.raw_induct
    [where P = "\<lambda>rs w y. \<not> (socket w = None \<and> readyState w = 1 \<and> cfg_queueMessages (config w) \<and>
      messageQueue w \<noteq> [] \<and> length (messageQueue w) \<le> maxQueueSize w)", OF _ assms])
  fix f :: "error option list \<Rightarrow> world \<Rightarrow> world option" and rs w y
  assume IH: "\<And>rs w y. f rs w = Some y \<Longrightarrow>
      \<not> (socket w = None \<and> readyState w = 1 \<and> cfg_queueMessages (config w) \<and>
      messageQueue w \<noteq> [] \<and> length (messageQueue w) \<le> maxQueueSize w)"
    and eq: "(if messageQueue w \<noteq> [] \<and> readyState w = 1 then
        (case messageQueue w of
           [] \<Rightarrow> Some w
         | (str, cb) # rest \<Rightarrow>
             f (tl rs)
               (fst (send str cb (case rs of [] \<Rightarrow> None | r # _ \<Rightarrow> r) (w\<lparr>messageQueue := rest\<rparr>))))
      else Some w) = Some y"
  show "\<not> (socket w = None \<and> readyState w = 1 \<and> cfg_queueMessages (config w) \<and>
      messageQueue w \<noteq> [] \<and> length (messageQueue w) \<le> maxQueueSize w)"
  proof
    assume bad: "socket w = None \<and> readyState w = 1 \<and> cfg_queueMessages (config w) \<and>
      messageQueue w \<noteq> [] \<and> length (messageQueue w) \<le> maxQueueSize w"
    then obtain str cb rest where q: "messageQueue w = (str, cb) # rest"
      by (cases "messageQueue w") auto
    let ?w = "fst (send str cb (case rs of [] \<Rightarrow> None | r # _ \<Rightarrow> r) (w\<lparr>messageQueue := rest\<rparr>))"
    have w': "?w = w\<lparr>messageQueue := rest @ [(str, cb)]\<rparr>"
      using bad q by (simp add: send_def)
    from eq bad q have "f (tl rs) ?w = Some y" by simp
    from IH[OF this] show False using bad q by (simp add: w')
  qed
qed

lemma flush_diverges:
  "socket w = None \<Longrightarrow> readyState w = 1 \<Longrightarrow> cfg_queueMessages (config w) \<Longrightarrow>
   messageQueue w \<noteq> [] \<Longrightarrow> length (messageQueue w) \<le> maxQueueSize w \<Longrightarrow>
   flushMessageQueue rs w = None"
  using flush_requeues [of rs w] by (cases "flushMessageQueue rs w") auto

lemma framed_refl: "framed w w"
  by (simp add: framed_def)

lemma framed_trans: "framed a b \<Longrightarrow> framed b c \<Longrightarrow> framed a c"
proof -
  assume ab: "framed a b" and bc: "framed b c"
  from ab have b: "b = a\<lparr>messageQueue := messageQueue b, trace := trace b\<rparr>"
    by (simp add: framed_def)
  from bc have c: "c = b\<lparr>messageQueue := messageQueue c, trace := trace c\<rparr>"
    by (simp add: framed_def)
  have "c = a\<lparr>messageQueue := messageQueue c, trace := trace c\<rparr>"
    by (subst c, subst b) simp
  moreover have "length (messageQueue c) \<le> length (messageQueue a)"
    using ab bc by (simp add: framed_def)
  ultimately show ?thesis by (simp add: framed_def)
qed

lemma send_framed: "framed (w\<lparr>messageQueue := q @ [x]\<rparr>) (fst (send str cb r (w\<lparr>messageQueue := q\<rparr>)))"
  by (auto simp: framed_def send_def callback_def logEffect_def split: option.splits)

lemma flush_frame:
  assumes "flushMessageQueue rs w = Some y"
  shows "framed w y"
proof (rule flushMessageQueue.raw_induct [where P = "\<lambda>rs w y. framed w y", OF _ assms])
  fix f :: "error option list \<Rightarrow> world \<Rightarrow> world option" and rs w y
  assume IH: "\<And>rs w y. f rs w = Some y \<Longrightarrow> framed w y"
    and eq: "(if messageQueue w \<noteq> [] \<and> readyState w = 1 then
        (case messageQueue w of
           [] \<Rightarrow> Some w
         | (str, cb) # rest \<Rightarrow>
             f (tl rs)
               (fst (send str cb (case rs of [] \<Rightarrow> None | r # _ \<Rightarrow> r) (w\<lparr>messageQueue := rest\<rparr>))))
      else Some w) = Some y"
  show "framed w y"
  proof (cases "messageQueue w \<noteq> [] \<and> readyState w = 1")
    case False
    with eq show ?thesis by (auto simp: framed_refl split: if_splits)
  next
    case True
    then obtain str cb rest where q: "messageQueue w = (str, cb) # rest"
      by (cases "messageQueue w") auto
    let ?w = "fst (send str cb (case rs of [] \<Rightarrow> None | r # _ \<Rightarrow> r) (w\<lparr>messageQueue := rest\<rparr>))"
    from eq True q have "f (tl rs) ?w = Some y" by simp
    from IH[OF this] have 1: "framed ?w y" .
    have 2: "framed w ?w"
      using q by (auto simp: framed_def send_def callback_def logEffect_def split: option.splits)
    show ?thesis using framed_trans[OF 2 1] .
  qed
qed

subsection \<open>The fields after the operations that branch on a timer handle\<close>

lemma clearReconnectTimer_fields [simp]:
  "socket (clearReconnectTimer w) = socket w"
  "readyState (clearReconnectTimer w) = readyState w"
  "reconnectAttempts (clearReconnectTimer w) = reconnectAttempts w"
  "maxReconnectAttempts (clearReconnectTimer w) = maxReconnectAttempts w"
  "reconnectDelay (clearReconnectTimer w) = reconnectDelay w"
  "maxReconnectDelay (clearReconnectTimer w) = maxReconnectDelay w"
  "reconnectTimer (clearReconnectTimer w) = None"
  "shouldReconnect (clearReconnectTimer w) = shouldReconnect w"
  "messageQueue (clearReconnectTimer w) = messageQueue w"
  "maxQueueSize (clearReconnectTimer w) = maxQueueSize w"
  "pingInterval (clearReconnectTimer w) = pingInterval w"
  "pingTimeout (clearReconnectTimer w) = pingTimeout w"
  "lastPongTime (clearReconnectTimer w) = lastPongTime w"
  "config (clearReconnectTimer w) = config w"
  "timers (clearReconnectTimer w) = filter (\<lambda>p. Some (fst p) \<noteq> reconnectTimer w) (timers w)"
  "nextTimer (clearReconnectTimer w) = nextTimer w"
  "nextSocket (clearReconnectTimer w) = nextSocket w"
  "connectTimeoutOf (clearReconnectTimer w) = connectTimeoutOf w"
  "trace (clearReconnectTimer w) = trace w @ (case reconnectTimer w of None \<Rightarrow> [] | Some t \<Rightarrow> [TimerCleared t])"
  by (simp_all add: clearReconnectTimer_def clearTimer_def split: option.splits)

lemma stopHeartbeat_fields [simp]:
  "socket (stopHeartbeat w) = socket w"
  "readyState (stopHeartbeat w) = readyState w"
  "reconnectAttempts (stopHeartbeat w) = reconnectAttempts w"
  "maxReconnectAttempts (stopHeartbeat w) = maxReconnectAttempts w"
  "reconnectDelay (stopHeartbeat w) = reconnectDelay w"
  "maxReconnectDelay (stopHeartbeat w) = maxReconnectDelay w"
  "reconnectTimer (stopHeartbeat w) = reconnectTimer w"
  "shouldReconnect (stopHeartbeat w) = shouldReconnect w"
  "messageQueue (stopHeartbeat w) = messageQueue w"
  "maxQueueSize (stopHeartbeat w) = maxQueueSize w"
  "pingInterval (stopHeartbeat w) = None"
  "pingTimeout (stopHeartbeat w) = None"
  "lastPongTime (stopHeartbeat w) = lastPongTime w"
  "config (stopHeartbeat w) = config w"
  "timers (stopHeartbeat w) = filter (\<lambda>p. Some (fst p) \<noteq> pingInterval w \<and> Some (fst p) \<noteq> pingTimeout w) (timers w)"
  "nextTimer (stopHeartbeat w) = nextTimer w"
  "nextSocket (stopHeartbeat w) = nextSocket w"
  "connectTimeoutOf (stopHeartbeat w) = connectTimeoutOf w"
  "trace (stopHeartbeat w) = trace w @ (case pingInterval w of None \<Rightarrow> [] | Some t \<Rightarrow> [TimerCleared t]) @ (case pingTimeout w of None \<Rightarrow> [] | Some t \<Rightarrow> [TimerCleared t])"
  by (simp_all add: stopHeartbeat_def clearTimer_def Let_def split: option.splits)

lemma callback_fields [simp]:
  "socket (callback cb e w) = socket w"
  "readyState (callback cb e w) = readyState w"
  "reconnectAttempts (callback cb e w) = reconnectAttempts w"
  "maxReconnectAttempts (callback cb e w) = maxReconnectAttempts w"
  "reconnectDelay (callback cb e w) = reconnectDelay w"
  "maxReconnectDelay (callback cb e w) = maxReconnectDelay w"
  "reconnectTimer (callback cb e w) = reconnectTimer w"
  "shouldReconnect (callback cb e w) = shouldReconnect w"
  "messageQueue (callback cb e w) = messageQueue w"
  "maxQueueSize (callback cb e w) = maxQueueSize w"
  "pingInterval (callback cb e w) = pingInterval w"
  "pingTimeout (callback cb e w) = pingTimeout w"
  "lastPongTime (callback cb e w) = lastPongTime w"
  "config (callback cb e w) = config w"
  "timers (callback cb e w) = timers w"
  "nextTimer (callback cb e w) = nextTimer w"
  "nextSocket (callback cb e w) = nextSocket w"
  "connectTimeoutOf (callback cb e w) = connectTimeoutOf w"
  "trace (callback cb e w) = trace w @ (case cb of None \<Rightarrow> [] | Some c \<Rightarrow> [Callback c e])"
  by (simp_all add: callback_def logEffect_def split: option.splits)

subsection \<open>Every handler re-establishes the quiescent conditions\<close>

lemma constructor_quiescent: "quiescent cfg (constructor cfg)"
  by (simp add: quiescent_def constructor_def)

lemma connect_quiescent: "quiescent cfg w \<Longrightarrow> quiescent cfg (connect w)"
  by (auto simp: quiescent_def connect_def setTimer_def logEffect_def Let_def split: option.splits)

lemma close_quiescent: "quiescent cfg w \<Longrightarrow> quiescent cfg (close w)"
  by (auto simp: quiescent_def close_def logEffect_def Let_def split: option.splits)

lemma send_quiescent: "quiescent cfg w \<Longrightarrow> quiescent cfg (fst (send str cb r w))"
  by (auto simp: quiescent_def send_def logEffect_def Let_def split: option.splits)

lemma reset_quiescent: "quiescent cfg w \<Longrightarrow> quiescent cfg (resetReconnectAttempts w)"
  by (auto simp: quiescent_def resetReconnectAttempts_def)

lemma onmessage_quiescent: "quiescent cfg w \<Longrightarrow> quiescent cfg (onmessage d now w)"
  by (auto simp: quiescent_def onmessage_def emit_def)

lemma onerror_quiescent: "quiescent cfg w \<Longrightarrow> quiescent cfg (onerror ev w)"
  by (auto simp: quiescent_def onerror_def emit_def)

lemma scheduleReconnect_quiescent:
  "quiescent cfg w \<Longrightarrow> readyState w = 3 \<Longrightarrow> quiescent cfg (scheduleReconnect w)"
  by (auto simp: quiescent_def scheduleReconnect_def emit_def setTimer_def Let_def)

lemma onclose_quiescent: "quiescent cfg w \<Longrightarrow> quiescent cfg (onclose c r w)"
proof -
  assume q: "quiescent cfg w"
  let ?w4 = "(emit (EvClose c r) (stopHeartbeat (w\<lparr>readyState := 3\<rparr>)))\<lparr>socket := None\<rparr>"
  have 4: "quiescent cfg ?w4" and r: "readyState ?w4 = 3"
    using q by (auto simp: quiescent_def emit_def)
  have "quiescent cfg (emit (EvReconnectFailed (reconnectAttempts ?w4)) ?w4)"
    using 4 by (simp add: quiescent_def emit_def)
  with 4 scheduleReconnect_quiescent[OF 4 r] show ?thesis
    by (simp add: onclose_def Let_def)
qed

lemma startHeartbeat_quiescent: "quiescent cfg w \<Longrightarrow> quiescent cfg (startHeartbeat now w)"
  by (auto simp: quiescent_def startHeartbeat_def setTimer_def Let_def split: option.splits)

lemma framed_quiescent: "framed w y \<Longrightarrow> quiescent cfg w \<Longrightarrow> quiescent cfg y"
proof -
  assume f: "framed w y" and q: "quiescent cfg w"
  from f have y: "y = w\<lparr>messageQueue := messageQueue y, trace := trace y\<rparr>"
    and l: "length (messageQueue y) \<le> length (messageQueue w)" by (simp_all add: framed_def)
  from l have ne: "messageQueue y \<noteq> [] \<Longrightarrow> messageQueue w \<noteq> []" by auto
  show ?thesis
    using q l ne by (subst y) (auto simp: quiescent_def)
qed

lemma onopen_quiescent: "onopen s now rs w = Some w' \<Longrightarrow> quiescent cfg w \<Longrightarrow> quiescent cfg w'"
proof -
  assume o: "onopen s now rs w = Some w'" and q: "quiescent cfg w"
  let ?w0 = "case map_of (connectTimeoutOf w) s of None \<Rightarrow> w | Some t \<Rightarrow> clearTimer t w"
  let ?w3 = "emit EvOpen (?w0\<lparr>readyState := 1, reconnectAttempts := 0\<rparr>)"
  have 3: "quiescent cfg ?w3"
    using q by (auto simp: quiescent_def emit_def clearTimer_def split: option.splits)
  from o obtain w4 where f: "flushMessageQueue rs ?w3 = Some w4" and w': "w' = startHeartbeat now w4"
    by (auto simp: onopen_def Let_def split: option.splits)
  from framed_quiescent[OF flush_frame[OF f] 3] show ?thesis
    unfolding w' by (rule startHeartbeat_quiescent)
qed

lemma connectTimeoutFired_quiescent: "quiescent cfg w \<Longrightarrow> quiescent cfg (connectTimeoutFired w)"
  using close_quiescent[of cfg w] by (auto simp: connectTimeoutFired_def emit_def quiescent_def)

lemma expire_quiescent: "quiescent cfg w \<Longrightarrow> quiescent cfg (expire t w)"
  by (auto simp: quiescent_def expire_def)

lemma heartbeatTick_quiescent:
  "quiescent cfg w \<Longrightarrow>
   quiescent cfg (case heartbeatTick now w of Inl (e, w') \<Rightarrow> logEffect (Uncaught e) w' | Inr w' \<Rightarrow> w')"
  by (auto simp: quiescent_def heartbeatTick_def emit_def logEffect_def Let_def split: option.splits)

lemma step_quiescent: "step w i = Some w' \<Longrightarrow> quiescent cfg w \<Longrightarrow> quiescent cfg w'"
proof (cases i)
  case (SockOpen s now rs)
  then show "step w i = Some w' \<Longrightarrow> quiescent cfg w \<Longrightarrow> quiescent cfg w'"
    by (auto simp: onopen_quiescent split: if_splits)
next
  case (TimerFire t now)
  then show "step w i = Some w' \<Longrightarrow> quiescent cfg w \<Longrightarrow> quiescent cfg w'"
    using connect_quiescent[OF expire_quiescent, of cfg w t]
      connectTimeoutFired_quiescent[OF expire_quiescent, of cfg w t]
      heartbeatTick_quiescent[of cfg w now]
    by (auto split: option.splits timer.splits)
qed (auto simp: connect_quiescent close_quiescent send_quiescent reset_quiescent
      onmessage_quiescent onerror_quiescent onclose_quiescent split: if_splits)

lemma run_quiescent: "run w is = Some w' \<Longrightarrow> quiescent cfg w \<Longrightarrow> quiescent cfg w'"
  by (induction "is" arbitrary: w) (auto split: option.splits dest: step_quiescent)

subsection \<open>Runs\<close>

lemma run_append:
  "run w (xs @ ys) = (case run w xs of None \<Rightarrow> None | Some w' \<Rightarrow> run w' ys)"
  by (induction xs arbitrary: w) (auto split: option.splits)

lemma run_snoc: "run w xs = Some v \<Longrightarrow> run w (xs @ [i]) = step v i"
  by (simp add: run_append split: option.splits)

subsection \<open>Handle and state agree unless an open event finds no handle\<close>

lemma onopen_socket_state:
  assumes "onopen s now rs w = Some w'"
  shows "socket w' = socket w \<and> readyState w' = 1"
proof -
  let ?w0 = "case map_of (connectTimeoutOf w) s of None \<Rightarrow> w | Some t \<Rightarrow> clearTimer t w"
  let ?w3 = "emit EvOpen (?w0\<lparr>readyState := 1, reconnectAttempts := 0\<rparr>)"
  from assms obtain w4 where f: "flushMessageQueue rs ?w3 = Some w4"
    and w': "w' = startHeartbeat now w4"
    by (auto simp: onopen_def Let_def split: option.splits)
  from flush_frame [OF f] have w4: "w4 = ?w3\<lparr>messageQueue := messageQueue w4, trace := trace w4\<rparr>"
    by (simp add: framed_def)
  have "socket w4 = socket w \<and> readyState w4 = 1"
    by (subst w4, subst (2) w4) (simp add: emit_def clearTimer_def split: option.splits)
  then show ?thesis
    by (simp add: w' startHeartbeat_def setTimer_def Let_def split: option.splits)
qed

lemma step_tight:
  assumes "step w i = Some w'"
    and "(socket w = None) = (readyState w = 3)"
    and "case i of SockOpen s now rs \<Rightarrow> socket w \<noteq> None | _ \<Rightarrow> True"
  shows "(socket w' = None) = (readyState w' = 3)"
proof -
  have connect: "(socket (connect v) = None) = (readyState (connect v) = 3)"
    if "(socket v = None) = (readyState v = 3)" for v
    using that
    by (auto simp: connect_def logEffect_def setTimer_def Let_def split: option.splits)
  have close: "(socket (close v) = None) = (readyState (close v) = 3)"
    if "(socket v = None) = (readyState v = 3)" for v
    using that by (auto simp: close_def logEffect_def Let_def split: option.splits)
  have send: "socket (fst (send str cb r w)) = socket w
      \<and> readyState (fst (send str cb r w)) = readyState w" for str cb r
    by (auto simp: send_def logEffect_def split: option.splits)
  have onclose: "socket (onclose c r w) = None \<and> readyState (onclose c r w) = 3" for c r
    by (simp add: onclose_def scheduleReconnect_def emit_def setTimer_def Let_def)
  have expire: "(socket (expire t w) = None) = (readyState (expire t w) = 3)" for t
    using assms(2) by (simp add: expire_def)
  have fired: "(socket (connectTimeoutFired v) = None) = (readyState (connectTimeoutFired v) = 3)"
    if "(socket v = None) = (readyState v = 3)" for v
    using that close [OF that] by (auto simp: connectTimeoutFired_def emit_def)
  have tick: "socket (case heartbeatTick now w of Inl (e, w') \<Rightarrow> logEffect (Uncaught e) w' | Inr w' \<Rightarrow> w') = socket w
      \<and> readyState (case heartbeatTick now w of Inl (e, w') \<Rightarrow> logEffect (Uncaught e) w' | Inr w' \<Rightarrow> w') = readyState w"
    for now
    by (simp add: heartbeatTick_def emit_def logEffect_def Let_def split: option.splits)
  show ?thesis
  proof (cases i)
    case CallConnect
    with assms(1) connect [OF assms(2)] show ?thesis by auto
  next
    case CallClose
    with assms(1) close [OF assms(2)] show ?thesis by auto
  next
    case (CallSend str cb r)
    with assms(1,2) send [of str cb r] show ?thesis by auto
  next
    case CallResetReconnectAttempts
    with assms show ?thesis by (auto simp: resetReconnectAttempts_def)
  next
    case (SockOpen s now rs)
    with assms show ?thesis
      by (auto split: if_splits dest: onopen_socket_state)
  next
    case (SockMessage s d now)
    with assms show ?thesis by (auto simp: onmessage_def emit_def split: if_splits)
  next
    case (SockError s ev)
    with assms show ?thesis by (auto simp: onerror_def emit_def split: if_splits)
  next
    case (SockClose s c r)
    with assms(1,2) onclose [of c r] show ?thesis by (auto split: if_splits)
  next
    case (TimerFire t now)
    with assms(1,2) connect [OF expire [of t]] fired [OF expire [of t]] tick [of now]
    show ?thesis
      by (auto split: option.splits timer.splits)
  qed
qed

lemma run_tight:
  "run w is = Some w' \<Longrightarrow> opensHeld w is \<Longrightarrow> (socket w = None) = (readyState w = 3) \<Longrightarrow>
   (socket w' = None) = (readyState w' = 3)"
proof (induction "is" arbitrary: w)
  case Nil
  then show ?case by simp
next
  case (Cons i "is")
  from Cons.prems(1) obtain v where v: "step w i = Some v" and r: "run v is = Some w'"
    by (auto split: option.splits)
  from Cons.prems(2) v have h: "case i of SockOpen s now rs \<Rightarrow> socket w \<noteq> None | _ \<Rightarrow> True"
    and o: "opensHeld v is" by simp_all
  from Cons.IH [OF r o step_tight [OF v Cons.prems(3) h]] show ?case .
qed

subsection \<open>A dormant client stays dormant until connect is called\<close>

lemma reconnectPending_filter:
  "reconnectPending w = [] \<Longrightarrow> reconnectPending (w\<lparr>timers := filter P (timers w)\<rparr>) = []"
  by (auto simp: reconnectPending_def filter_empty_conv)

lemma dormant_no_reconnect_timer:
  "dormant w \<Longrightarrow> map_of (timers w) t \<noteq> Some (ReconnectTimeout d)"
proof
  assume d: "dormant w" and m: "map_of (timers w) t = Some (ReconnectTimeout d)"
  from map_of_SomeD [OF m] have "(t, ReconnectTimeout d) \<in> set (reconnectPending w)"
    by (simp add: reconnectPending_def)
  with d show False by (simp add: dormant_def)
qed

lemma onopen_dormant:
  assumes "onopen s now rs w = Some w'" and "dormant w"
  shows "dormant w' \<and> nextSocket w' = nextSocket w"
proof -
  let ?w0 = "case map_of (connectTimeoutOf w) s of None \<Rightarrow> w | Some t \<Rightarrow> clearTimer t w"
  let ?w3 = "emit EvOpen (?w0\<lparr>readyState := 1, reconnectAttempts := 0\<rparr>)"
  from assms obtain w4 where f: "flushMessageQueue rs ?w3 = Some w4"
    and w': "w' = startHeartbeat now w4"
    by (auto simp: onopen_def Let_def split: option.splits)
  from flush_frame [OF f] have w4: "w4 = ?w3\<lparr>messageQueue := messageQueue w4, trace := trace w4\<rparr>"
    by (simp add: framed_def)
  have 3: "dormant ?w3 \<and> nextSocket ?w3 = nextSocket w"
    using assms(2)
    by (auto simp: dormant_def reconnectPending_def filter_empty_conv emit_def clearTimer_def
        split: option.splits)
  have 4: "dormant w4 \<and> nextSocket w4 = nextSocket w"
    using 3 by (subst w4, subst (3) w4) (simp add: dormant_def reconnectPending_def)
  then show ?thesis
    by (auto simp: w' dormant_def reconnectPending_def filter_empty_conv startHeartbeat_def
        setTimer_def Let_def split: option.splits)
qed

lemma step_dormant:
  assumes "step w i = Some w'" and "dormant w" and "i \<noteq> CallConnect"
  shows "dormant w' \<and> nextSocket w' = nextSocket w"
proof (cases i)
  case CallConnect
  with assms show ?thesis by simp
next
  case CallClose
  with assms show ?thesis by (auto simp: dormant_def close_def)
next
  case (CallSend str cb r)
  with assms show ?thesis
    by (auto simp: dormant_def reconnectPending_def send_def logEffect_def
        split: option.splits if_splits)
next
  case CallResetReconnectAttempts
  with assms show ?thesis
    by (auto simp: dormant_def reconnectPending_def resetReconnectAttempts_def)
next
  case (SockOpen s now rs)
  with assms show ?thesis by (auto split: if_splits dest: onopen_dormant)
next
  case (SockMessage s d now)
  with assms show ?thesis
    by (auto simp: dormant_def reconnectPending_def onmessage_def emit_def split: if_splits)
next
  case (SockError s ev)
  with assms show ?thesis
    by (auto simp: dormant_def reconnectPending_def onerror_def emit_def split: if_splits)
next
  case (SockClose s c r)
  with assms show ?thesis
    by (auto simp: dormant_def reconnectPending_def filter_empty_conv onclose_def emit_def Let_def
        split: if_splits)
next
  case (TimerFire t now)
  have e: "dormant (expire t w)"
    using assms(2) by (auto simp: dormant_def reconnectPending_def filter_empty_conv expire_def)
  have f: "dormant (connectTimeoutFired (expire t w))
      \<and> nextSocket (connectTimeoutFired (expire t w)) = nextSocket w"
    using e by (auto simp: connectTimeoutFired_def close_def dormant_def reconnectPending_def
        emit_def expire_def)
  have h: "dormant (case heartbeatTick now w of Inl (e, w') \<Rightarrow> logEffect (Uncaught e) w' | Inr w' \<Rightarrow> w')
      \<and> nextSocket (case heartbeatTick now w of Inl (e, w') \<Rightarrow> logEffect (Uncaught e) w' | Inr w' \<Rightarrow> w') = nextSocket w"
    using assms(2)
    by (auto simp: heartbeatTick_def dormant_def reconnectPending_def emit_def logEffect_def Let_def)
  from TimerFire assms f h dormant_no_reconnect_timer [OF assms(2), of t] show ?thesis
    by (auto split: option.splits timer.splits)
qed

lemma run_dormant:
  "run w is = Some w' \<Longrightarrow> dormant w \<Longrightarrow> CallConnect \<notin> set is \<Longrightarrow>
   dormant w' \<and> nextSocket w' = nextSocket w"
proof (induction "is" arbitrary: w)
  case Nil
  then show ?case by simp
next
  case (Cons i "is")
  from Cons.prems(1) obtain v where v: "step w i = Some v" and r: "run v is = Some w'"
    by (auto split: option.splits)
  from Cons.prems(3) have i: "i \<noteq> CallConnect" and n: "CallConnect \<notin> set is" by auto
  from step_dormant [OF v Cons.prems(2) i] have d: "dormant v" and s: "nextSocket v = nextSocket w"
    by simp_all
  from Cons.IH [OF r d n] s show ?case by simp
qed

lemma close_dormant:
  assumes "quiescent cfg w" and "socket w \<noteq> None"
  shows "dormant (close w)"
  using assms
  by (auto simp: dormant_def reconnectPending_def filter_empty_conv quiescent_def close_def
      logEffect_def Let_def)

subsection \<open>Only the open handler can fail to return\<close>

lemma step_returns: "\<not> isOpenEvent i \<Longrightarrow> \<exists>w'. step w i = Some w'"
  by (cases i) (auto split: option.splits timer.splits)

lemma run_returns: "\<forall>i \<in> set is. \<not> isOpenEvent i \<Longrightarrow> \<exists>w'. run w is = Some w'"
proof (induction "is" arbitrary: w)
  case Nil
  then show ?case by simp
next
  case (Cons i "is")
  from Cons.prems have "\<not> isOpenEvent i" by simp
  from step_returns [OF this, of w] obtain v where v: "step w i = Some v" by blast
  from Cons.IH [of v] Cons.prems obtain w' where "run v is = Some w'" by auto
  with v show ?case by simp
qed

subsection \<open>Consecutive failures\<close>

lemma map_of_snoc_fresh: "\<forall>p \<in> set xs. fst p \<noteq> t \<Longrightarrow> map_of (xs @ [(t, x)]) t = Some x"
  by (induction xs) auto

lemma failure_round:
  assumes a: "attempting k m c v" and k: "k < m" and h: "socket v = Some h"
  shows "\<exists>v1 v2. step v (SockClose h 1006 []) = Some v1
    \<and> reconnectTimer v1 = Some (nextTimer v)
    \<and> step v1 (TimerFire (nextTimer v) 0) = Some v2
    \<and> attempting (Suc k) m c v2"
proof -
  let ?d = "min (reconnectDelay v * 2 ^ k) (maxReconnectDelay v)"
  let ?Q = "\<lambda>p. Some (fst p) \<noteq> reconnectTimer v \<and> Some (fst p) \<noteq> pingInterval v
      \<and> Some (fst p) \<noteq> pingTimeout v"
  let ?v1 = "onclose 1006 [] v"
  from a have sr: "shouldReconnect v" and ra: "reconnectAttempts v = k"
    and ma: "maxReconnectAttempts v = m"
    and fresh: "\<forall>p \<in> set (timers v). fst p < nextTimer v \<and> \<not> isReconnectTimeout (snd p)"
    and cnt: "reconnectFailedCount v = c" and hs: "h < nextSocket v"
    using h by (simp_all add: attempting_def list_all_iff)
  have sched: "?v1 = scheduleReconnect ((emit (EvClose 1006 []) (stopHeartbeat (v\<lparr>readyState := 3\<rparr>)))\<lparr>socket := None\<rparr>)"
    using sr ra ma k by (simp add: onclose_def emit_def Let_def)
  have s1: "step v (SockClose h 1006 []) = Some ?v1"
    using hs by simp
  have f1: "socket ?v1 = None" "reconnectTimer ?v1 = Some (nextTimer v)"
    "nextTimer ?v1 = Suc (nextTimer v)" "nextSocket ?v1 = nextSocket v"
    "shouldReconnect ?v1" "reconnectAttempts ?v1 = Suc k" "maxReconnectAttempts ?v1 = m"
    "config ?v1 = config v"
    using sr ra ma by (simp_all add: sched scheduleReconnect_def emit_def setTimer_def Let_def)
  have t1: "timers ?v1 = filter ?Q (timers v) @ [(nextTimer v, ReconnectTimeout ?d)]"
    using ra by (auto simp: sched scheduleReconnect_def emit_def setTimer_def Let_def conj_ac
        intro: filter_cong)
  have c1: "reconnectFailedCount ?v1 = c"
    using cnt by (simp add: reconnectFailedCount_def sched scheduleReconnect_def emit_def
        setTimer_def Let_def split: option.splits)
  have m1: "map_of (timers ?v1) (nextTimer v) = Some (ReconnectTimeout ?d)"
    unfolding t1 by (rule map_of_snoc_fresh) (use fresh in auto)
  let ?e = "expire (nextTimer v) ?v1"
  have s2: "step ?v1 (TimerFire (nextTimer v) 0) = Some (connect ?e)"
    using m1 by simp
  have te: "timers ?e = filter ?Q (timers v)"
    using fresh by (auto simp: expire_def t1 intro!: filter_cong)
  have fe: "socket ?e = None" "nextTimer ?e = Suc (nextTimer v)" "nextSocket ?e = nextSocket v"
    "reconnectAttempts ?e = Suc k" "maxReconnectAttempts ?e = m"
    "reconnectFailedCount ?e = c" "config ?e = config v"
    using f1 c1 by (simp_all add: expire_def reconnectFailedCount_def)
  have "attempting (Suc k) m c (connect ?e)"
    using fe te fresh
    by (auto simp: attempting_def list_all_iff connect_def logEffect_def setTimer_def Let_def
        reconnectFailedCount_def split: option.splits)
  with s1 f1(2) s2 show ?thesis by blast
qed

lemma failures_chain:
  assumes "attempting 0 m c w"
  shows "k \<le> m \<Longrightarrow> \<exists>v. failures k w = Some v \<and> attempting k m c v"
proof (induction k)
  case 0
  with assms show ?case by simp
next
  case (Suc k)
  then obtain v where f: "failures k w = Some v" and a: "attempting k m c v" by auto
  from a obtain h where h: "socket v = Some h"
    by (auto simp: attempting_def split: option.splits)
  from failure_round [OF a _ h] Suc.prems obtain v1 v2
    where "step v (SockClose h 1006 []) = Some v1" "reconnectTimer v1 = Some (nextTimer v)"
      "step v1 (TimerFire (nextTimer v) 0) = Some v2" "attempting (Suc k) m c v2"
    by auto
  with f h show ?case by simp
qed

subsection \<open>Once the attempts are used up, no handler schedules a reconnect\<close>

lemma step_exhausted:
  assumes st: "step w i = Some w'"
    and ex: "maxReconnectAttempts w \<le> reconnectAttempts w"
    and i: "i \<noteq> CallResetReconnectAttempts" "\<not> isOpenEvent i"
  shows "reconnectAttempts w' = reconnectAttempts w
    \<and> maxReconnectAttempts w' = maxReconnectAttempts w
    \<and> set (reconnectPending w') \<subseteq> set (reconnectPending w)"
proof -
  let ?same = "\<lambda>v v'. reconnectAttempts v' = reconnectAttempts v
    \<and> maxReconnectAttempts v' = maxReconnectAttempts v
    \<and> set (reconnectPending v') \<subseteq> set (reconnectPending v)"
  have connect: "?same v (connect v)" for v
    by (auto simp: reconnectPending_def connect_def logEffect_def setTimer_def Let_def
        split: option.splits)
  have close: "?same v (close v)" for v
    by (auto simp: reconnectPending_def close_def logEffect_def Let_def split: option.splits)
  have send: "?same w (fst (send str cb r w))" for str cb r
    by (auto simp: reconnectPending_def send_def logEffect_def split: option.splits)
  have onclose: "?same w (onclose c r w)" for c r
    using ex by (auto simp: reconnectPending_def onclose_def emit_def Let_def)
  have expire: "?same w (expire t w)" for t
    by (auto simp: reconnectPending_def expire_def)
  have fired: "?same v (connectTimeoutFired v)" for v
    using close [of v] by (auto simp: reconnectPending_def connectTimeoutFired_def emit_def)
  have tick: "?same w (case heartbeatTick now w of Inl (e, w') \<Rightarrow> logEffect (Uncaught e) w' | Inr w' \<Rightarrow> w')"
    for now
    by (auto simp: reconnectPending_def heartbeatTick_def emit_def logEffect_def Let_def
        split: option.splits)
  show ?thesis
  proof (cases i)
    case CallConnect
    with st connect [of w] show ?thesis by auto
  next
    case CallClose
    with st close [of w] show ?thesis by auto
  next
    case (CallSend str cb r)
    with st send [of str cb r] show ?thesis by auto
  next
    case CallResetReconnectAttempts
    with i show ?thesis by simp
  next
    case (SockOpen s now rs)
    with i show ?thesis by simp
  next
    case (SockMessage s d now)
    with st show ?thesis
      by (auto simp: reconnectPending_def onmessage_def emit_def split: if_splits)
  next
    case (SockError s ev)
    with st show ?thesis
      by (auto simp: reconnectPending_def onerror_def emit_def split: if_splits)
  next
    case (SockClose s c r)
    with st onclose [of c r] show ?thesis by (auto split: if_splits)
  next
    case (TimerFire t now)
    from connect [of "expire t w"] expire [of t]
    have 1: "?same w (connect (expire t w))" by auto
    from fired [of "expire t w"] expire [of t]
    have 2: "?same w (connectTimeoutFired (expire t w))" by auto
    from TimerFire st 1 2 tick [of now] show ?thesis
      by (auto split: option.splits timer.splits)
  qed
qed

lemma run_exhausted:
  "run w js = Some w' \<Longrightarrow> maxReconnectAttempts w \<le> reconnectAttempts w \<Longrightarrow>
   \<forall>i \<in> set js. i \<noteq> CallResetReconnectAttempts \<and> \<not> isOpenEvent i \<Longrightarrow>
   reconnectAttempts w' = reconnectAttempts w
   \<and> maxReconnectAttempts w' = maxReconnectAttempts w
   \<and> set (reconnectPending w') \<subseteq> set (reconnectPending w)"
proof (induction js arbitrary: w)
  case Nil
  then show ?case by simp
next
  case (Cons i js)
  from Cons.prems(1) obtain v where v: "step w i = Some v" and r: "run v js = Some w'"
    by (auto split: option.splits)
  from Cons.prems(3) have i: "i \<noteq> CallResetReconnectAttempts" "\<not> isOpenEvent i"
    and js: "\<forall>i \<in> set js. i \<noteq> CallResetReconnectAttempts \<and> \<not> isOpenEvent i" by auto
  from step_exhausted [OF v Cons.prems(2) i]
  have s: "reconnectAttempts v = reconnectAttempts w"
    "maxReconnectAttempts v = maxReconnectAttempts w"
    "set (reconnectPending v) \<subseteq> set (reconnectPending w)" by simp_all
  from Cons.IH [OF r _ js] s Cons.prems(2) show ?case by auto
qed

lemma onopen_resets:
  assumes "onopen s now rs w = Some w'"
  shows "reconnectAttempts w' = 0"
proof -
  let ?w0 = "case map_of (connectTimeoutOf w) s of None \<Rightarrow> w | Some t \<Rightarrow> clearTimer t w"
  let ?w3 = "emit EvOpen (?w0\<lparr>readyState := 1, reconnectAttempts := 0\<rparr>)"
  from assms obtain w4 where f: "flushMessageQueue rs ?w3 = Some w4"
    and w': "w' = startHeartbeat now w4"
    by (auto simp: onopen_def Let_def split: option.splits)
  from flush_frame [OF f] have w4: "w4 = ?w3\<lparr>messageQueue := messageQueue w4, trace := trace w4\<rparr>"
    by (simp add: framed_def)
  have "reconnectAttempts w4 = 0"
    by (subst w4) (simp add: emit_def)
  then show ?thesis
    by (simp add: w' startHeartbeat_def setTimer_def Let_def split: option.splits)
qed

lemma onopen_returns:
  assumes "socket w \<noteq> None \<or> messageQueue w = []"
  shows "\<exists>w'. onopen s now rs w = Some w'"
proof -
  let ?w0 = "case map_of (connectTimeoutOf w) s of None \<Rightarrow> w | Some t \<Rightarrow> clearTimer t w"
  let ?w3 = "emit EvOpen (?w0\<lparr>readyState := 1, reconnectAttempts := 0\<rparr>)"
  have "\<exists>w4. flushMessageQueue rs ?w3 = Some w4"
  proof (cases "socket w")
    case None
    with assms have "messageQueue ?w3 = []"
      by (simp add: emit_def clearTimer_def split: option.splits)
    from flush_nil [OF this] show ?thesis by blast
  next
    case (Some h)
    have "flushMessageQueue rs ?w3 =
        Some (?w3\<lparr>messageQueue := [], trace := trace ?w3 @ drainEffects h (messageQueue w) rs\<rparr>)"
      by (rule flush_held) (simp_all add: Some emit_def clearTimer_def split: option.splits)
    then show ?thesis by blast
  qed
  then show ?thesis
    by (auto simp: onopen_def Let_def)
qed

subsection \<open>The open handler and the heartbeat tick while a handle is held\<close>

text \<open>
  The open handler is the only step that takes the state into OPEN. When it runs while
  the client holds a handle, it returns, and by then the queue has been drained once,
  before the heartbeat monitor starts: the queue is empty, and since the \<open>open\<close> emission
  every entry has been handed to the handle in insertion order, each followed by its
  callback with no error or with the error of its own send, failed entries neither
  queued again nor holding up the entries behind them. Starting the heartbeat monitor
  only adds to the trace and does not touch the queue.
\<close>

lemma open_drains_queue:
  "(socket w = Some h \<longrightarrow>
      onopen s now rs w =
        Some (startHeartbeat now
          ((case map_of (connectTimeoutOf w) s of None \<Rightarrow> w | Some t \<Rightarrow> clearTimer t w)
             \<lparr>readyState := 1, reconnectAttempts := 0, messageQueue := [],
              trace := trace (case map_of (connectTimeoutOf w) s of None \<Rightarrow> w | Some t \<Rightarrow> clearTimer t w)
                 @ Emit EvOpen # drainEffects h (messageQueue w) rs\<rparr>)))
   \<and> messageQueue (startHeartbeat now v) = messageQueue v
   \<and> (\<exists>fx. trace (startHeartbeat now v) = trace v @ fx)
   \<and> (step w i = Some w' \<and> readyState w \<noteq> 1 \<and> readyState w' = 1 \<longrightarrow>
        (\<exists>s now rs. i = SockOpen s now rs))"
proof -
  let ?w0 = "case map_of (connectTimeoutOf w) s of None \<Rightarrow> w | Some t \<Rightarrow> clearTimer t w"
  let ?w3 = "emit EvOpen (?w0\<lparr>readyState := 1, reconnectAttempts := 0\<rparr>)"
  have 1: "onopen s now rs w =
        Some (startHeartbeat now
          (?w0\<lparr>readyState := 1, reconnectAttempts := 0, messageQueue := [],
              trace := trace ?w0 @ Emit EvOpen # drainEffects h (messageQueue w) rs\<rparr>))"
    if h: "socket w = Some h"
  proof -
    have "flushMessageQueue rs ?w3 =
        Some (?w3\<lparr>messageQueue := [], trace := trace ?w3 @ drainEffects h (messageQueue w) rs\<rparr>)"
      by (rule flush_held) (simp_all add: h emit_def clearTimer_def split: option.splits)
    then show ?thesis
      by (simp add: onopen_def Let_def emit_def)
  qed
  have 2: "messageQueue (startHeartbeat now v) = messageQueue v"
    by (simp add: startHeartbeat_def setTimer_def Let_def split: option.splits)
  have 3: "\<exists>fx. trace (startHeartbeat now v) = trace v @ fx"
    by (simp add: startHeartbeat_def setTimer_def Let_def split: option.splits)
  have 4: "\<exists>s now rs. i = SockOpen s now rs"
    if st: "step w i = Some w'" and a: "readyState w \<noteq> 1" and b: "readyState w' = 1"
  proof (cases i)
    case CallConnect
    with st a b show ?thesis
      by (auto simp: connect_def logEffect_def setTimer_def Let_def split: option.splits if_splits)
  next
    case CallClose
    with st a b show ?thesis by (auto simp: close_def logEffect_def Let_def split: option.splits)
  next
    case (CallSend str cb r)
    with st a b show ?thesis
      by (auto simp: send_def logEffect_def split: option.splits if_splits)
  next
    case CallResetReconnectAttempts
    with st a b show ?thesis by (auto simp: resetReconnectAttempts_def)
  next
    case (SockOpen s now rs)
    then show ?thesis by simp
  next
    case (SockMessage s d now)
    with st a b show ?thesis by (auto simp: onmessage_def emit_def split: if_splits)
  next
    case (SockError s ev)
    with st a b show ?thesis by (auto simp: onerror_def emit_def split: if_splits)
  next
    case (SockClose s c r)
    have "readyState (onclose c r w) = 3"
      by (simp add: onclose_def scheduleReconnect_def emit_def setTimer_def Let_def)
    with SockClose st a b show ?thesis by (auto split: if_splits)
  next
    case (TimerFire t now)
    have c: "readyState (connect (expire t w)) \<noteq> 1"
      using a by (auto simp: connect_def expire_def logEffect_def setTimer_def Let_def
          split: option.splits)
    have f: "readyState (connectTimeoutFired (expire t w)) \<noteq> 1"
      using a by (auto simp: connectTimeoutFired_def close_def expire_def emit_def logEffect_def
          Let_def split: option.splits)
    have k: "readyState (case heartbeatTick now w of Inl (e, w') \<Rightarrow> logEffect (Uncaught e) w' | Inr w' \<Rightarrow> w') = readyState w"
      by (simp add: heartbeatTick_def emit_def logEffect_def Let_def split: option.splits)
    from TimerFire st a b c f k show ?thesis
      by (auto split: option.splits timer.splits)
  qed
  from 1 2 3 4 show ?thesis by blast
qed

text \<open>
  Three queued messages, the second of which the underlying socket refuses: all three
  are handed over in order, the second callback receives the error, and the queue is
  empty afterwards.
\<close>

lemma open_drains_queue_example:
  "run (constructor queuing)
      [CallSend ''a'' (Some 1) None, CallSend ''b'' (Some 2) None, CallSend ''c'' None None,
       CallConnect] = Some connectingQueued
   \<and> step connectingQueued (SockOpen 0 0 [None, Some (SendThrew 9)]) =
       Some (connectingQueued
         \<lparr>readyState := 1, messageQueue := [],
          trace := [SocketNew 0, Emit EvOpen,
                    SocketSend 0 ''a'' None, Callback 1 None,
                    SocketSend 0 ''b'' (Some (SendThrew 9)), Callback 2 (Some (SendThrew 9)),
                    SocketSend 0 ''c'' None]\<rparr>)"
proof -
  have r: "run (constructor queuing)
      [CallSend ''a'' (Some 1) None, CallSend ''b'' (Some 2) None, CallSend ''c'' None None,
       CallConnect] = Some connectingQueued"
    by (simp add: connectingQueued_def queuing_def constructor_def defaults_def orElse_def
        send_def connect_def logEffect_def Let_def)
  have h: "socket connectingQueued = Some 0"
    by (simp add: connectingQueued_def)
  from open_drains_queue [of connectingQueued 0 0 0 "[None, Some (SendThrew 9)]"] h
  have "onopen 0 0 [None, Some (SendThrew 9)] connectingQueued =
      Some (startHeartbeat 0
        (connectingQueued
           \<lparr>readyState := 1, reconnectAttempts := 0, messageQueue := [],
            trace := trace connectingQueued
              @ Emit EvOpen # drainEffects 0 (messageQueue connectingQueued) [None, Some (SendThrew 9)]\<rparr>))"
    by (simp add: connectingQueued_def constructor_def)
  with r show ?thesis
    by (simp add: connectingQueued_def queuing_def constructor_def defaults_def
        startHeartbeat_def Let_def)
qed

text \<open>
  A tick of the heartbeat interval that finds the state OPEN, a handle held, and the
  time since \<open>lastPongTime\<close> strictly greater than the heartbeat timeout (30000 when none
  is configured) emits \<open>heartbeat-timeout\<close> once and closes the handle once, and changes
  nothing else. A tick that finds the state not OPEN or the time within the timeout does
  nothing. No tick changes the connection state: that is left to the close event of
  the handle, whose handler stops the monitor, so that its interval timer is no longer
  pending. An inbound message sets \<open>lastPongTime\<close> to now and re-emits \<open>message\<close> with the
  payload as it came.
\<close>

lemma heartbeat_monitor:
  "(readyState w = 1 \<and> socket w = Some h \<and>
      timeSinceLastPong now w > int (orElse (cfg_heartbeatTimeout (config w)) 30000) \<longrightarrow>
      heartbeatTick now w = Inr (w\<lparr>trace := trace w @ [Emit EvHeartbeatTimeout, SocketClose h]\<rparr>))
   \<and> (readyState w \<noteq> 1 \<or>
      timeSinceLastPong now w \<le> int (orElse (cfg_heartbeatTimeout (config w)) 30000) \<longrightarrow>
      heartbeatTick now w = Inr w)
   \<and> (cfg_heartbeatTimeout (config w) = None \<longrightarrow>
      orElse (cfg_heartbeatTimeout (config w)) 30000 = 30000)
   \<and> readyState (afterTick (heartbeatTick now w)) = readyState w
   \<and> pingInterval (onclose code reason w) = None
   \<and> (pingInterval w = Some t \<longrightarrow> (t, PingInterval ms) \<notin> set (timers (onclose code reason w)))
   \<and> onmessage data now w = w\<lparr>lastPongTime := Some now, trace := trace w @ [Emit (EvMessage data)]\<rparr>"
proof -
  have 1: "readyState w = 1 \<and> socket w = Some h \<and>
      timeSinceLastPong now w > int (orElse (cfg_heartbeatTimeout (config w)) 30000) \<longrightarrow>
      heartbeatTick now w = Inr (w\<lparr>trace := trace w @ [Emit EvHeartbeatTimeout, SocketClose h]\<rparr>)"
    by (simp add: heartbeatTick_def timeSinceLastPong_def emit_def logEffect_def Let_def)
  have 2: "readyState w \<noteq> 1 \<or>
      timeSinceLastPong now w \<le> int (orElse (cfg_heartbeatTimeout (config w)) 30000) \<longrightarrow>
      heartbeatTick now w = Inr w"
    by (auto simp: heartbeatTick_def timeSinceLastPong_def Let_def)
  have 3: "cfg_heartbeatTimeout (config w) = None \<longrightarrow>
      orElse (cfg_heartbeatTimeout (config w)) 30000 = 30000"
    by (simp add: orElse_def)
  have 4: "readyState (afterTick (heartbeatTick now w)) = readyState w"
    by (simp add: heartbeatTick_def afterTick_def emit_def logEffect_def Let_def
        split: option.splits)
  have 5: "pingInterval (onclose code reason w) = None"
    by (simp add: onclose_def scheduleReconnect_def emit_def setTimer_def Let_def)
  have 6: "pingInterval w = Some t \<longrightarrow> (t, PingInterval ms) \<notin> set (timers (onclose code reason w))"
    by (auto simp: onclose_def scheduleReconnect_def emit_def setTimer_def Let_def)
  have 7: "onmessage data now w = w\<lparr>lastPongTime := Some now, trace := trace w @ [Emit (EvMessage data)]\<rparr>"
    by (simp add: onmessage_def emit_def)
  from 1 2 3 4 5 6 7 show ?thesis by blast
qed

text \<open>
  The client with a heartbeat every 10000 whose connection opened at time 0 and has been
  silent since: the tick at 30000 does nothing, the tick at 30001 emits
  \<open>heartbeat-timeout\<close> and closes the handle, and the state is OPEN after both.
\<close>

lemma heartbeat_monitor_example:
  "run (constructor withHeartbeat) [CallConnect, SockOpen 0 0 []] = Some openedWithHeartbeat
   \<and> step openedWithHeartbeat (TimerFire 0 30000) = Some openedWithHeartbeat
   \<and> step openedWithHeartbeat (TimerFire 0 30001) =
       Some (openedWithHeartbeat
         \<lparr>trace := trace openedWithHeartbeat @ [Emit EvHeartbeatTimeout, SocketClose 0]\<rparr>)
   \<and> readyState (afterTick (heartbeatTick 30001 openedWithHeartbeat)) = 1"
proof -
  have r: "run (constructor withHeartbeat) [CallConnect, SockOpen 0 0 []] = Some openedWithHeartbeat"
    by (simp add: openedWithHeartbeat_def constructor_def withHeartbeat_def defaults_def
        orElse_def connect_def onopen_def startHeartbeat_def emit_def logEffect_def setTimer_def
        flush_nil Let_def)
  have a: "readyState openedWithHeartbeat = 1 \<and> socket openedWithHeartbeat = Some 0
      \<and> timeSinceLastPong 30001 openedWithHeartbeat
          > int (orElse (cfg_heartbeatTimeout (config openedWithHeartbeat)) 30000)"
    and b: "timeSinceLastPong 30000 openedWithHeartbeat
          \<le> int (orElse (cfg_heartbeatTimeout (config openedWithHeartbeat)) 30000)"
    and t: "map_of (timers openedWithHeartbeat) 0 = Some (PingInterval 10000)"
    by (simp_all add: openedWithHeartbeat_def constructor_def withHeartbeat_def defaults_def
        orElse_def timeSinceLastPong_def)
  from heartbeat_monitor [of openedWithHeartbeat 0 30001] a
  have late: "heartbeatTick 30001 openedWithHeartbeat =
      Inr (openedWithHeartbeat
         \<lparr>trace := trace openedWithHeartbeat @ [Emit EvHeartbeatTimeout, SocketClose 0]\<rparr>)"
    and st: "readyState (afterTick (heartbeatTick 30001 openedWithHeartbeat)) = 1"
    by (simp_all add: afterTick_def)
  from heartbeat_monitor [of openedWithHeartbeat 0 30000] b
  have early: "heartbeatTick 30000 openedWithHeartbeat = Inr openedWithHeartbeat"
    by simp
  from r late early st t show ?thesis by simp
qed

subsection \<open>Handle and state in every run\<close>

text \<open>
  Whenever no handler is running: state CLOSED implies that no handle is held, so a held
  handle implies that the state is CONNECTING, OPEN or CLOSING; and in a run in which
  every \<open>open\<close> event was delivered while a handle was held, a handle is held if and only
  if the state is CONNECTING, OPEN or CLOSING. A \<open>connect()\<close> call while a handle is held
  changes nothing.
\<close>

lemma handle_iff_state:
  assumes "run (constructor cfg) is = Some w"
  shows "(readyState w = 3 \<longrightarrow> socket w = None)
    \<and> (socket w \<noteq> None \<longrightarrow> readyState w = 0 \<or> readyState w = 1 \<or> readyState w = 2)
    \<and> (opensHeld (constructor cfg) is \<longrightarrow>
         (socket w \<noteq> None) = (readyState w = 0 \<or> readyState w = 1 \<or> readyState w = 2))
    \<and> (socket w \<noteq> None \<longrightarrow> connect w = w)"
proof -
  from run_quiescent [OF assms constructor_quiescent]
  have q: "readyState w = 0 \<or> readyState w = 1 \<or> readyState w = 3"
    and c: "readyState w = 3 \<longrightarrow> socket w = None"
    by (simp_all add: quiescent_def)
  have t: "opensHeld (constructor cfg) is \<longrightarrow> (socket w = None) = (readyState w = 3)"
    using run_tight [OF assms] by (simp add: constructor_def)
  have n: "socket w \<noteq> None \<longrightarrow> connect w = w"
    by (simp add: connect_def)
  from q c t n show ?thesis by auto
qed

text \<open>
  A connection that opens: the handle is held in state OPEN, and a second \<open>connect()\<close>
  changes nothing.
\<close>

lemma handle_iff_state_example:
  "opensHeld (constructor defaults) [CallConnect, SockOpen 0 0 []]
   \<and> map_option (\<lambda>w. (socket w, readyState w, connect w = w))
       (run (constructor defaults) [CallConnect, SockOpen 0 0 []]) = Some (Some 0, 1, True)"
proof -
  let ?w = "(constructor defaults)\<lparr>socket := Some 0, readyState := 1, shouldReconnect := True,
      nextSocket := 1, trace := [SocketNew 0, Emit EvOpen]\<rparr>"
  have r: "run (constructor defaults) [CallConnect, SockOpen 0 0 []] = Some ?w"
    by (simp add: constructor_def defaults_def connect_def onopen_def startHeartbeat_def
        emit_def logEffect_def flush_nil Let_def)
  have o: "opensHeld (constructor defaults) [CallConnect, SockOpen 0 0 []]"
    by (simp add: constructor_def defaults_def connect_def onopen_def startHeartbeat_def
        emit_def logEffect_def flush_nil Let_def)
  from handle_iff_state [OF r] r o show ?thesis
    by (simp add: constructor_def)
qed

section \<open>The claims\<close>

subsection \<open>C1: the backoff delay\<close>

text \<open>
  C1. The reconnect attempt that \<open>scheduleReconnect\<close> schedules is attempt
  \<open>n = reconnectAttempts + 1\<close> (1-indexed). The counter becomes \<open>n\<close>, the timer set has
  the delay \<open>min (reconnectDelay * 2 ^ (n - 1)) maxReconnectDelay\<close> and is the one
  \<open>reconnectTimer\<close> then refers to, and \<open>reconnecting(n, delay)\<close> is emitted in the same
  call, just before the timer is set. With \<open>reconnectDelay = 1000\<close> and
  \<open>maxReconnectDelay = 30000\<close> the delays of the attempts 1 to 10 are
  1000, 2000, 4000, 8000, 16000, 30000, 30000, 30000, 30000, 30000.
\<close>

theorem scheduleReconnect_backoff:
  fixes w :: world and cfg :: config
  defines "n \<equiv> reconnectAttempts w + 1"
  defines "delay \<equiv> min (reconnectDelay w * 2 ^ (n - 1)) (maxReconnectDelay w)"
  shows "reconnectAttempts (scheduleReconnect w) = n
    \<and> reconnectTimer (scheduleReconnect w) = Some (nextTimer w)
    \<and> timers (scheduleReconnect w) =
        filter (\<lambda>p. Some (fst p) \<noteq> reconnectTimer w) (timers w) @ [(nextTimer w, ReconnectTimeout delay)]
    \<and> trace (scheduleReconnect w) =
        trace w @ (case reconnectTimer w of None \<Rightarrow> [] | Some t \<Rightarrow> [TimerCleared t])
          @ [Emit (EvReconnecting n delay), TimerSet (nextTimer w) (ReconnectTimeout delay)]
    \<and> map (\<lambda>k. scheduledDelay (scheduleReconnect
            ((constructor cfg)\<lparr>reconnectDelay := 1000, maxReconnectDelay := 30000,
                               reconnectAttempts := k - 1\<rparr>)))
          [1, 2, 3, 4, 5, 6, 7, 8, 9, 10]
        = map Some [1000, 2000, 4000, 8000, 16000, 30000, 30000, 30000, 30000, 30000]"
proof -
  have general: "reconnectAttempts (scheduleReconnect w) = n
    \<and> reconnectTimer (scheduleReconnect w) = Some (nextTimer w)
    \<and> timers (scheduleReconnect w) =
        filter (\<lambda>p. Some (fst p) \<noteq> reconnectTimer w) (timers w) @ [(nextTimer w, ReconnectTimeout delay)]
    \<and> trace (scheduleReconnect w) =
        trace w @ (case reconnectTimer w of None \<Rightarrow> [] | Some t \<Rightarrow> [TimerCleared t])
          @ [Emit (EvReconnecting n delay), TimerSet (nextTimer w) (ReconnectTimeout delay)]"
    by (simp add: n_def delay_def scheduleReconnect_def emit_def setTimer_def Let_def)
  have concrete: "map (\<lambda>k. scheduledDelay (scheduleReconnect
            ((constructor cfg)\<lparr>reconnectDelay := 1000, maxReconnectDelay := 30000,
                               reconnectAttempts := k - 1\<rparr>)))
          [1, 2, 3, 4, 5, 6, 7, 8, 9, 10]
        = map Some [1000, 2000, 4000, 8000, 16000, 30000, 30000, 30000, 30000, 30000]"
    by (simp add: scheduledDelay_def scheduleReconnect_def emit_def setTimer_def Let_def
        constructor_def)
  from general concrete show ?thesis by blast
qed

text \<open>
  The sixth attempt of a client with the default delays: the counter goes from 5 to 6
  and the delay is capped at 30000.
\<close>

theorem scheduleReconnect_backoff_witness:
  "reconnectAttempts (scheduleReconnect ((constructor defaults)\<lparr>reconnectAttempts := 5\<rparr>)) = 6
   \<and> timers (scheduleReconnect ((constructor defaults)\<lparr>reconnectAttempts := 5\<rparr>))
       = [(0, ReconnectTimeout 30000)]
   \<and> trace (scheduleReconnect ((constructor defaults)\<lparr>reconnectAttempts := 5\<rparr>))
       = [Emit (EvReconnecting 6 30000), TimerSet 0 (ReconnectTimeout 30000)]"
  using scheduleReconnect_backoff [of "(constructor defaults)\<lparr>reconnectAttempts := 5\<rparr>" defaults]
  by (simp add: constructor_def defaults_def orElse_def)

subsection \<open>C2: draining the queue on open\<close>

text \<open>
  C2. The claim is that on every transition into OPEN the queue is drained, once and in
  insertion order, before the heartbeat monitor starts. The code does not do so on the
  following input. A message is queued, and the caller restarts the connection
  (\<open>close()\<close>, then \<open>connect()\<close>); the close event of the first socket, which arrives after
  the \<open>connect()\<close>, clears \<open>this.socket\<close>, the handle of the second socket, while that
  socket is connecting. When the second socket opens, the state becomes OPEN and the
  drain hands the queued message to \<open>send\<close>, which finds no handle and queues it again:
  the loop tests the state and not the handle, it never ends, and the open handler
  never returns.
\<close>

theorem open_without_handle_never_returns:
  "run (constructor queuing) (CallSend ''a'' None None # restart) = Some restartedQueued
   \<and> run (constructor queuing) (CallSend ''a'' None None # restart @ [SockOpen 1 0 []]) = None"
proof -
  have r: "run (constructor queuing) (CallSend ''a'' None None # restart) = Some restartedQueued"
    by (simp add: restart_def restartedQueued_def queuing_def constructor_def defaults_def
        orElse_def send_def connect_def close_def onclose_def scheduleReconnect_def emit_def
        logEffect_def setTimer_def Let_def)
  have "flushMessageQueue [] (emit EvOpen (restartedQueued\<lparr>readyState := 1, reconnectAttempts := 0\<rparr>)) = None"
    by (rule flush_diverges)
      (simp_all add: restartedQueued_def queuing_def constructor_def defaults_def orElse_def
        emit_def)
  then have s: "step restartedQueued (SockOpen 1 0 []) = None"
    by (simp add: onopen_def Let_def restartedQueued_def constructor_def)
  have "run (constructor queuing) ((CallSend ''a'' None None # restart) @ [SockOpen 1 0 []]) = None"
    using run_snoc [OF r, of "SockOpen 1 0 []"] s by simp
  with r show ?thesis by simp
qed

subsection \<open>C3: the heartbeat monitor\<close>

text \<open>
  C3. The claim is that every tick that finds the state OPEN and the heartbeat timeout
  exceeded emits \<open>heartbeat-timeout\<close> and closes the handle. The code does not do so on
  the following input, in which every timer fires when it is due. The client's only
  reconnect attempt (socket 1) is under way when the caller restarts the connection
  (\<open>close()\<close>, then \<open>connect()\<close>, which constructs socket 2); the close event of socket 1
  arrives afterwards and clears \<open>this.socket\<close>, and since the attempts are used up it
  sets no timer. Socket 2 opens at time 2000, which makes the state OPEN and starts the
  heartbeat monitor, and then stays silent. The ticks at 12000, 22000 and 32000 find
  the timeout of 30000 not exceeded and do nothing. The tick at 42000 finds the state
  OPEN and the timeout exceeded: it emits \<open>heartbeat-timeout\<close>, and then
  \<open>this.socket.close()\<close> throws a TypeError, because \<open>this.socket\<close> is \<open>null\<close>. No handle
  is closed, and the monitor's timer stays pending.
\<close>

theorem tick_without_handle_throws:
  "map_option (\<lambda>w. (socket w, readyState w, lastPongTime w, timers w, trace w))
     (run (constructor oneAttemptHeartbeat)
        (orphanOpens @ [TimerFire 1 12000, TimerFire 1 22000, TimerFire 1 32000]))
   = Some (None, 1, Some 2000, [(1, PingInterval 10000)],
       [SocketNew 0, Emit (EvClose 1006 []), Emit (EvReconnecting 1 1000),
        TimerSet 0 (ReconnectTimeout 1000), SocketNew 1, TimerCleared 0,
        SocketClose 1, SocketNew 2, Emit (EvClose 1000 []),
        Emit (EvReconnectFailed 1), Emit EvOpen,
        TimerSet 1 (PingInterval 10000)])
   \<and> map_option (\<lambda>w. (socket w, readyState w, lastPongTime w, timers w, trace w))
     (run (constructor oneAttemptHeartbeat)
        (orphanOpens @ [TimerFire 1 12000, TimerFire 1 22000, TimerFire 1 32000,
                        TimerFire 1 42000]))
   = Some (None, 1, Some 2000, [(1, PingInterval 10000)],
       [SocketNew 0, Emit (EvClose 1006 []), Emit (EvReconnecting 1 1000),
        TimerSet 0 (ReconnectTimeout 1000), SocketNew 1, TimerCleared 0,
        SocketClose 1, SocketNew 2, Emit (EvClose 1000 []),
        Emit (EvReconnectFailed 1), Emit EvOpen,
        TimerSet 1 (PingInterval 10000),
        Emit EvHeartbeatTimeout, Uncaught TypeError])"
  by (simp add: orphanOpens_def oneAttemptHeartbeat_def constructor_def defaults_def orElse_def
      connect_def close_def onclose_def onopen_def scheduleReconnect_def startHeartbeat_def
      heartbeatTick_def expire_def emit_def logEffect_def setTimer_def flush_nil Let_def)

subsection \<open>C4: explicit close\<close>

text \<open>
  C4, as stated, fails: \<open>close()\<close> has no access to the connect-timeout timer, which is
  a local of the \<open>connect()\<close> call. After \<open>connect()\<close> and \<open>close()\<close> on a client with a
  connect timeout of 5000 the timer is still pending.
\<close>

theorem close_explicit_counterexample:
  "map_option (\<lambda>w. (readyState w, timers w)) (run (constructor withConnectTimeout) [CallConnect])
     = Some (0, [(0, ConnectTimeout 5000)])
   \<and> map_option (\<lambda>w. (readyState w, timers w))
       (run (constructor withConnectTimeout) [CallConnect, CallClose])
     = Some (3, [(0, ConnectTimeout 5000)])"
  by (simp add: withConnectTimeout_def constructor_def defaults_def orElse_def connect_def
      close_def logEffect_def setTimer_def Let_def)

text \<open>
  C4, amended. \<open>close()\<close> changes nothing when no handle is held. Otherwise it sets
  \<open>shouldReconnect\<close> to false, cancels the pending reconnect timer, stops the heartbeat,
  closes the handle and ends in state CLOSED with the handle cleared; it cancels the
  timers that \<open>reconnectTimer\<close>, \<open>pingInterval\<close> and \<open>pingTimeout\<close> refer to and no other, so
  a pending connect-timeout timer stays pending, and that timer's callback does nothing
  when it fires in a state other than CONNECTING. After \<open>close()\<close> on a client that held
  a handle, whatever events and timers follow, no reconnect timer is pending, no socket
  is constructed and no handle is held until \<open>connect()\<close> is called again.
\<close>

theorem close_explicit:
  "(socket w = None \<longrightarrow> close w = w)
   \<and> (socket w = Some h \<longrightarrow>
        shouldReconnect (close w) = False
        \<and> reconnectTimer (close w) = None
        \<and> pingInterval (close w) = None \<and> pingTimeout (close w) = None
        \<and> readyState (close w) = 3 \<and> socket (close w) = None
        \<and> timers (close w) =
            filter (\<lambda>p. Some (fst p) \<noteq> reconnectTimer w \<and> Some (fst p) \<noteq> pingInterval w
                         \<and> Some (fst p) \<noteq> pingTimeout w) (timers w)
        \<and> (\<exists>fx. trace (close w) = trace w @ fx @ [SocketClose h]))
   \<and> (readyState w \<noteq> 0 \<longrightarrow> connectTimeoutFired w = w)
   \<and> (run (constructor cfg) is = Some w \<and> socket w \<noteq> None \<and>
       run (close w) js = Some w' \<and> CallConnect \<notin> set js \<longrightarrow>
        reconnectPending w' = [] \<and> \<not> shouldReconnect w' \<and> socket w' = None
        \<and> nextSocket w' = nextSocket w)"
proof -
  have 1: "socket w = None \<longrightarrow> close w = w"
    by (simp add: close_def)
  have 2: "socket w = Some h \<longrightarrow>
        shouldReconnect (close w) = False
        \<and> reconnectTimer (close w) = None
        \<and> pingInterval (close w) = None \<and> pingTimeout (close w) = None
        \<and> readyState (close w) = 3 \<and> socket (close w) = None
        \<and> timers (close w) =
            filter (\<lambda>p. Some (fst p) \<noteq> reconnectTimer w \<and> Some (fst p) \<noteq> pingInterval w
                         \<and> Some (fst p) \<noteq> pingTimeout w) (timers w)
        \<and> (\<exists>fx. trace (close w) = trace w @ fx @ [SocketClose h])"
    by (auto simp: close_def logEffect_def Let_def conj_ac intro: filter_cong)
  have 3: "readyState w \<noteq> 0 \<longrightarrow> connectTimeoutFired w = w"
    by (simp add: connectTimeoutFired_def)
  have 4: "reconnectPending w' = [] \<and> \<not> shouldReconnect w' \<and> socket w' = None
        \<and> nextSocket w' = nextSocket w"
    if r: "run (constructor cfg) is = Some w" and s: "socket w \<noteq> None"
      and r': "run (close w) js = Some w'" and n: "CallConnect \<notin> set js"
  proof -
    from run_quiescent [OF r constructor_quiescent] have q: "quiescent cfg w" .
    from run_dormant [OF r' close_dormant [OF q s] n]
    have "dormant w'" and "nextSocket w' = nextSocket (close w)" by simp_all
    moreover have "nextSocket (close w) = nextSocket w"
      by (simp add: close_def logEffect_def Let_def split: option.splits)
    ultimately show ?thesis by (simp add: dormant_def)
  qed
  from 1 2 3 4 show ?thesis by blast
qed

text \<open>
  \<open>close()\<close> while CONNECTING on the client with a connect timeout; then the close event
  of the socket arrives and the connect-timeout timer, which was left pending, fires.
\<close>

theorem close_explicit_witness:
  "run (constructor withConnectTimeout) [CallConnect] = Some connectingWithTimeout
   \<and> close connectingWithTimeout =
       connectingWithTimeout
         \<lparr>socket := None, readyState := 3, shouldReconnect := False,
          trace := trace connectingWithTimeout @ [SocketClose 0]\<rparr>
   \<and> map_option (\<lambda>w. (reconnectPending w, shouldReconnect w, socket w, nextSocket w))
       (run (close connectingWithTimeout) [SockClose 0 1006 [], TimerFire 0 5000])
     = Some ([], False, None, 1)"
proof -
  have r: "run (constructor withConnectTimeout) [CallConnect] = Some connectingWithTimeout"
    by (simp add: connectingWithTimeout_def withConnectTimeout_def constructor_def defaults_def
        orElse_def connect_def logEffect_def setTimer_def Let_def)
  have c: "close connectingWithTimeout =
       connectingWithTimeout
         \<lparr>socket := None, readyState := 3, shouldReconnect := False,
          trace := trace connectingWithTimeout @ [SocketClose 0]\<rparr>"
    by (simp add: connectingWithTimeout_def constructor_def close_def clearReconnectTimer_def
        stopHeartbeat_def logEffect_def Let_def)
  have "\<exists>w'. run (close connectingWithTimeout) [SockClose 0 1006 [], TimerFire 0 5000] = Some w'"
    by (rule run_returns) simp
  then obtain w' where r': "run (close connectingWithTimeout) [SockClose 0 1006 [], TimerFire 0 5000] = Some w'"
    by blast
  have s: "socket connectingWithTimeout \<noteq> None"
    by (simp add: connectingWithTimeout_def)
  from close_explicit [of connectingWithTimeout 0 withConnectTimeout "[CallConnect]"
      "[SockClose 0 1006 [], TimerFire 0 5000]" w'] r s r'
  have "reconnectPending w' = [] \<and> \<not> shouldReconnect w' \<and> socket w' = None
      \<and> nextSocket w' = nextSocket connectingWithTimeout"
    by simp
  with r c r' show ?thesis
    by (simp add: connectingWithTimeout_def)
qed

subsection \<open>C5: giving up\<close>

text \<open>
  C5. The attempt counter counts the reconnects scheduled since the last open or reset.
  From a client that holds the handle of a connection it is attempting, with the counter
  at 0, \<open>maxReconnectAttempts\<close> consecutive failures (each a close event followed by the
  reconnect timer firing, no open in between) take the counter to the maximum; the close
  handler that runs next emits \<open>close\<close> and then \<open>reconnect-failed(attempts)\<close>, once, and
  sets no timer, so that no reconnect timer is pending. In general, a close handler
  that finds the counter at or above the maximum emits \<open>reconnect-failed(attempts)\<close>
  exactly once and sets no timer; and from then on, until \<open>resetReconnectAttempts()\<close> is
  called or a connection opens, the counter keeps its value and no handler sets a
  reconnect timer. \<open>resetReconnectAttempts()\<close> sets the counter to 0 and changes nothing
  else. The open handler of a connection whose handle is held (or that finds the queue
  empty) returns, and the counter is 0 when it does; the handler sets the counter to 0
  before it emits \<open>open\<close> and drains the queue.
\<close>

theorem reconnect_exhausted:
  "(attempting 0 m c w \<longrightarrow>
      (\<exists>v h v'. failures m w = Some v \<and> reconnectAttempts v = m \<and> maxReconnectAttempts v = m
         \<and> socket v = Some h \<and> step v (SockClose h code reason) = Some v'
         \<and> (\<exists>fx. trace v' = trace v @ fx @ [Emit (EvClose code reason), Emit (EvReconnectFailed m)])
         \<and> reconnectFailedCount v' = c + 1
         \<and> reconnectPending v' = [] \<and> socket v' = None \<and> reconnectAttempts v' = m))
   \<and> (maxReconnectAttempts w \<le> reconnectAttempts w \<longrightarrow>
        (\<exists>fx. trace (onclose code reason w) =
           trace w @ fx @ [Emit (EvClose code reason), Emit (EvReconnectFailed (reconnectAttempts w))])
        \<and> reconnectFailedCount (onclose code reason w) = reconnectFailedCount w + 1
        \<and> timers (onclose code reason w) =
            filter (\<lambda>p. Some (fst p) \<noteq> pingInterval w \<and> Some (fst p) \<noteq> pingTimeout w) (timers w)
        \<and> nextTimer (onclose code reason w) = nextTimer w
        \<and> reconnectAttempts (onclose code reason w) = reconnectAttempts w)
   \<and> (maxReconnectAttempts w \<le> reconnectAttempts w \<and> run w js = Some w' \<and>
       (\<forall>i \<in> set js. i \<noteq> CallResetReconnectAttempts \<and> \<not> isOpenEvent i) \<longrightarrow>
        reconnectAttempts w' = reconnectAttempts w
        \<and> maxReconnectAttempts w' = maxReconnectAttempts w
        \<and> set (reconnectPending w') \<subseteq> set (reconnectPending w))
   \<and> resetReconnectAttempts w = w\<lparr>reconnectAttempts := 0\<rparr>
   \<and> (onopen s now rs w = Some w'' \<longrightarrow> reconnectAttempts w'' = 0)
   \<and> (socket w = Some h \<or> messageQueue w = [] \<longrightarrow>
        (\<exists>v. onopen s now rs w = Some v \<and> reconnectAttempts v = 0 \<and> readyState v = 1))
   \<and> (\<exists>u. reconnectAttempts u = 0 \<and> readyState u = 1
         \<and> trace u = trace w
              @ (case map_of (connectTimeoutOf w) s of None \<Rightarrow> [] | Some t \<Rightarrow> [TimerCleared t])
              @ [Emit EvOpen]
         \<and> onopen s now rs w = map_option (startHeartbeat now) (flushMessageQueue rs u))"
proof -
  have handler: "(\<exists>fx. trace (onclose code reason u) =
           trace u @ fx @ [Emit (EvClose code reason), Emit (EvReconnectFailed (reconnectAttempts u))])
        \<and> reconnectFailedCount (onclose code reason u) = reconnectFailedCount u + 1
        \<and> timers (onclose code reason u) =
            filter (\<lambda>p. Some (fst p) \<noteq> pingInterval u \<and> Some (fst p) \<noteq> pingTimeout u) (timers u)
        \<and> nextTimer (onclose code reason u) = nextTimer u
        \<and> reconnectAttempts (onclose code reason u) = reconnectAttempts u
        \<and> socket (onclose code reason u) = None"
    if "maxReconnectAttempts u \<le> reconnectAttempts u" for u
    using that
    by (simp add: onclose_def emit_def Let_def reconnectFailedCount_def split: option.splits)
  have 1: "\<exists>v h v'. failures m w = Some v \<and> reconnectAttempts v = m \<and> maxReconnectAttempts v = m
         \<and> socket v = Some h \<and> step v (SockClose h code reason) = Some v'
         \<and> (\<exists>fx. trace v' = trace v @ fx @ [Emit (EvClose code reason), Emit (EvReconnectFailed m)])
         \<and> reconnectFailedCount v' = c + 1
         \<and> reconnectPending v' = [] \<and> socket v' = None \<and> reconnectAttempts v' = m"
    if a: "attempting 0 m c w"
  proof -
    from failures_chain [OF a, of m] obtain v
      where f: "failures m w = Some v" and v: "attempting m m c v" by auto
    from v obtain h where h: "socket v = Some h" and hs: "h < nextSocket v"
      by (auto simp: attempting_def split: option.splits)
    from v have ra: "reconnectAttempts v = m" and ma: "maxReconnectAttempts v = m"
      and cnt: "reconnectFailedCount v = c"
      and none: "\<forall>p \<in> set (timers v). \<not> isReconnectTimeout (snd p)"
      by (simp_all add: attempting_def list_all_iff)
    have st: "step v (SockClose h code reason) = Some (onclose code reason v)"
      using hs by simp
    have ex: "maxReconnectAttempts v \<le> reconnectAttempts v"
      using ra ma by simp
    have "reconnectPending (onclose code reason v) = []"
      using handler [OF ex] none by (auto simp: reconnectPending_def filter_empty_conv)
    with handler [OF ex] f h st ra ma cnt show ?thesis by auto
  qed
  have 2: "(\<exists>fx. trace (onclose code reason w) =
           trace w @ fx @ [Emit (EvClose code reason), Emit (EvReconnectFailed (reconnectAttempts w))])
        \<and> reconnectFailedCount (onclose code reason w) = reconnectFailedCount w + 1
        \<and> timers (onclose code reason w) =
            filter (\<lambda>p. Some (fst p) \<noteq> pingInterval w \<and> Some (fst p) \<noteq> pingTimeout w) (timers w)
        \<and> nextTimer (onclose code reason w) = nextTimer w
        \<and> reconnectAttempts (onclose code reason w) = reconnectAttempts w"
    if "maxReconnectAttempts w \<le> reconnectAttempts w"
    using handler [OF that] by simp
  have 3: "reconnectAttempts w' = reconnectAttempts w
        \<and> maxReconnectAttempts w' = maxReconnectAttempts w
        \<and> set (reconnectPending w') \<subseteq> set (reconnectPending w)"
    if "maxReconnectAttempts w \<le> reconnectAttempts w" and "run w js = Some w'"
      and "\<forall>i \<in> set js. i \<noteq> CallResetReconnectAttempts \<and> \<not> isOpenEvent i"
    using run_exhausted [OF that(2) that(1) that(3)] .
  have 4: "resetReconnectAttempts w = w\<lparr>reconnectAttempts := 0\<rparr>"
    by (simp add: resetReconnectAttempts_def)
  have 5: "reconnectAttempts w'' = 0" if "onopen s now rs w = Some w''"
    using onopen_resets [OF that] .
  have 6: "\<exists>v. onopen s now rs w = Some v \<and> reconnectAttempts v = 0 \<and> readyState v = 1"
    if "socket w = Some h \<or> messageQueue w = []"
  proof -
    from that have "socket w \<noteq> None \<or> messageQueue w = []" by auto
    from onopen_returns [OF this] obtain v where v: "onopen s now rs w = Some v" by blast
    from onopen_resets [OF v] onopen_socket_state [OF v] v show ?thesis by simp
  qed
  have 7: "\<exists>u. reconnectAttempts u = 0 \<and> readyState u = 1
         \<and> trace u = trace w
              @ (case map_of (connectTimeoutOf w) s of None \<Rightarrow> [] | Some t \<Rightarrow> [TimerCleared t])
              @ [Emit EvOpen]
         \<and> onopen s now rs w = map_option (startHeartbeat now) (flushMessageQueue rs u)"
  proof -
    let ?w0 = "case map_of (connectTimeoutOf w) s of None \<Rightarrow> w | Some t \<Rightarrow> clearTimer t w"
    let ?u = "emit EvOpen (?w0\<lparr>readyState := 1, reconnectAttempts := 0\<rparr>)"
    have "reconnectAttempts ?u = 0 \<and> readyState ?u = 1
        \<and> trace ?u = trace w
              @ (case map_of (connectTimeoutOf w) s of None \<Rightarrow> [] | Some t \<Rightarrow> [TimerCleared t])
              @ [Emit EvOpen]"
      by (simp add: emit_def clearTimer_def split: option.splits)
    moreover have "onopen s now rs w = map_option (startHeartbeat now) (flushMessageQueue rs ?u)"
      by (simp add: onopen_def Let_def emit_def split: option.splits)
    ultimately show ?thesis by blast
  qed
  from 1 2 3 4 5 6 7 show ?thesis by blast
qed

text \<open>
  A client allowed two reconnect attempts whose every connection fails: after two
  failures the counter is 2, and the third close event emits \<open>reconnect-failed(2)\<close>, the
  only such emission, and leaves no reconnect timer pending. Had the second reconnect
  attempt opened instead, the counter would be back at 0.
\<close>

theorem reconnect_exhausted_witness:
  "run (constructor twoAttempts) [CallConnect] = Some firstAttempt
   \<and> attempting 0 2 0 firstAttempt
   \<and> failures 2 firstAttempt = Some lastAttempt
   \<and> map_option (\<lambda>w. (reconnectFailedCount w, reconnectPending w, socket w, reconnectAttempts w))
       (step lastAttempt (SockClose 2 1006 [])) = Some (1, [], None, 2)
   \<and> reconnectAttempts lastAttempt = 2
   \<and> map_option (\<lambda>w. (reconnectAttempts w, readyState w))
       (step lastAttempt (SockOpen 2 0 [])) = Some (0, 1)"
proof -
  have r: "run (constructor twoAttempts) [CallConnect] = Some firstAttempt"
    by (simp add: firstAttempt_def twoAttempts_def constructor_def defaults_def orElse_def
        connect_def logEffect_def Let_def)
  have a: "attempting 0 2 0 firstAttempt"
    by (simp add: attempting_def firstAttempt_def twoAttempts_def constructor_def defaults_def
        orElse_def reconnectFailedCount_def)
  have "failures (Suc (Suc 0)) firstAttempt = Some lastAttempt"
    by (simp add: firstAttempt_def lastAttempt_def twoAttempts_def constructor_def defaults_def
        orElse_def connect_def onclose_def scheduleReconnect_def expire_def emit_def
        logEffect_def setTimer_def Let_def)
  then have f: "failures 2 firstAttempt = Some lastAttempt"
    by (simp only: numeral_2_eq_2)
  have s: "socket lastAttempt = Some 2" and n: "nextSocket lastAttempt = 3"
    and c: "reconnectAttempts lastAttempt = 2"
    by (simp_all add: lastAttempt_def)
  from reconnect_exhausted [where m = 2 and c = 0 and w = firstAttempt and code = 1006
      and reason = "[]"] a
  obtain v h v' where "failures 2 firstAttempt = Some v" "socket v = Some h"
    "step v (SockClose h 1006 []) = Some v'" "reconnectFailedCount v' = 0 + 1"
    "reconnectPending v' = []" "socket v' = None" "reconnectAttempts v' = 2"
    by blast
  with f s have closed: "step lastAttempt (SockClose 2 1006 []) = Some v'
      \<and> reconnectFailedCount v' = 1 \<and> reconnectPending v' = [] \<and> socket v' = None
      \<and> reconnectAttempts v' = 2"
    by simp
  from reconnect_exhausted [where w = lastAttempt and h = 2 and s = 2 and now = 0
      and rs = "[]"] s
  obtain u where "onopen 2 0 [] lastAttempt = Some u" "reconnectAttempts u = 0"
    "readyState u = 1"
    by blast
  with n have opened: "map_option (\<lambda>w. (reconnectAttempts w, readyState w))
       (step lastAttempt (SockOpen 2 0 [])) = Some (0, 1)"
    by simp
  from r a f closed c opened show ?thesis by auto
qed

subsection \<open>C6: the queue bound\<close>

text \<open>
  C6. After any sequence of public calls, socket events and timers, the queue is no
  longer than \<open>maxQueueSize\<close>, which is the configured maximum (100 by default). A
  \<open>send\<close> that finds the client not open and the queue full fails at once: it returns
  false, the callback receives the "not open" error, and the queue is unchanged. With
  \<open>maxQueueSize = 2\<close> and queuing enabled on a closed client, \<open>send('a')\<close> and \<open>send('b')\<close>
  return true and leave two entries; \<open>send('c')\<close> returns false, its callback receives
  the error, and the queue still has the two entries.
\<close>

theorem queue_bounded:
  "(run (constructor cfg) is = Some w \<longrightarrow>
      length (messageQueue w) \<le> maxQueueSize w \<and> maxQueueSize w = orElse (cfg_maxQueueSize cfg) 100)
   \<and> ((socket v = None \<or> readyState v \<noteq> 1) \<and> maxQueueSize v \<le> length (messageQueue v) \<longrightarrow>
      send str cb r v =
        (v\<lparr>trace := trace v @ (case cb of None \<Rightarrow> [] | Some c \<Rightarrow> [Callback c (Some WebSocketNotOpen)])\<rparr>,
         False))
   \<and> (let w0 = constructor twoSlots;
           (w1, a) = send ''a'' (Some 1) None w0;
           (w2, b) = send ''b'' (Some 2) None w1;
           (w3, c) = send ''c'' (Some 3) None w2
       in a \<and> b \<and> messageQueue w2 = [(''a'', Some 1), (''b'', Some 2)]
          \<and> c = False \<and> trace w3 = [Callback 3 (Some WebSocketNotOpen)]
          \<and> messageQueue w3 = [(''a'', Some 1), (''b'', Some 2)])"
proof -
  have 1: "run (constructor cfg) is = Some w \<longrightarrow>
      length (messageQueue w) \<le> maxQueueSize w \<and> maxQueueSize w = orElse (cfg_maxQueueSize cfg) 100"
    using run_quiescent [OF _ constructor_quiescent, of cfg "is" w]
    by (auto simp: quiescent_def)
  have 2: "(socket v = None \<or> readyState v \<noteq> 1) \<and> maxQueueSize v \<le> length (messageQueue v) \<longrightarrow>
      send str cb r v =
        (v\<lparr>trace := trace v @ (case cb of None \<Rightarrow> [] | Some c \<Rightarrow> [Callback c (Some WebSocketNotOpen)])\<rparr>,
         False)"
    by (auto simp: send_def callback_def logEffect_def split: option.splits)
  have 3: "(let w0 = constructor twoSlots;
           (w1, a) = send ''a'' (Some 1) None w0;
           (w2, b) = send ''b'' (Some 2) None w1;
           (w3, c) = send ''c'' (Some 3) None w2
       in a \<and> b \<and> messageQueue w2 = [(''a'', Some 1), (''b'', Some 2)]
          \<and> c = False \<and> trace w3 = [Callback 3 (Some WebSocketNotOpen)]
          \<and> messageQueue w3 = [(''a'', Some 1), (''b'', Some 2)])"
    by (simp add: send_def callback_def logEffect_def constructor_def twoSlots_def defaults_def
        orElse_def)
  from 1 2 3 show ?thesis by blast
qed

text \<open>
  Three sends on the closed client with room for two, run through the event loop: the
  queue holds two entries, and the third send on that world fails.
\<close>

theorem queue_bounded_witness:
  "run (constructor twoSlots)
       [CallSend ''a'' (Some 1) None, CallSend ''b'' (Some 2) None, CallSend ''c'' (Some 3) None]
     = Some ((constructor twoSlots)
         \<lparr>messageQueue := [(''a'', Some 1), (''b'', Some 2)],
          trace := [Callback 3 (Some WebSocketNotOpen)]\<rparr>)
   \<and> length [(''a'', Some (1::nat)), (''b'', Some 2)] \<le> maxQueueSize (constructor twoSlots)
   \<and> maxQueueSize (constructor twoSlots) = 2
   \<and> snd (send ''c'' (Some 3) None
        ((constructor twoSlots)\<lparr>messageQueue := [(''a'', Some 1), (''b'', Some 2)]\<rparr>)) = False"
proof -
  let ?w = "(constructor twoSlots)
         \<lparr>messageQueue := [(''a'', Some 1), (''b'', Some 2)],
          trace := [Callback 3 (Some WebSocketNotOpen)]\<rparr>"
  let ?v = "(constructor twoSlots)\<lparr>messageQueue := [(''a'', Some 1), (''b'', Some 2)]\<rparr>"
  have r: "run (constructor twoSlots)
       [CallSend ''a'' (Some 1) None, CallSend ''b'' (Some 2) None, CallSend ''c'' (Some 3) None]
     = Some ?w"
    by (simp add: send_def callback_def logEffect_def constructor_def twoSlots_def defaults_def
        orElse_def)
  have v: "(socket ?v = None \<or> readyState ?v \<noteq> 1) \<and> maxQueueSize ?v \<le> length (messageQueue ?v)"
    by (simp add: constructor_def twoSlots_def defaults_def orElse_def)
  from queue_bounded [of twoSlots
      "[CallSend ''a'' (Some 1) None, CallSend ''b'' (Some 2) None, CallSend ''c'' (Some 3) None]"
      ?w ?v "''c''" "Some 3" None] r v
  show ?thesis
    by (simp add: constructor_def twoSlots_def defaults_def orElse_def)
qed

subsection \<open>C7: the outcomes of send\<close>




subsection \<open>C8: handle and state\<close>

text \<open>
  C8. The claim is that whenever no handler is running a handle is held if and only if
  the state is CONNECTING, OPEN or CLOSING. The code does not keep to it on the
  following input. The caller restarts the connection (\<open>close()\<close>, then \<open>connect()\<close>); the
  close event of the first socket arrives and its handler clears \<open>this.socket\<close>, which by
  then is the second socket; the second socket opens. No handler is running, the
  state is OPEN, and the client holds no handle.
\<close>

theorem open_without_handle_leaves_state_open:
  "map_option (\<lambda>w. (socket w, readyState w))
     (run (constructor defaults) (restart @ [SockOpen 1 0 []])) = Some (None, 1)"
  by (simp add: restart_def constructor_def defaults_def orElse_def connect_def close_def
      onclose_def onopen_def scheduleReconnect_def startHeartbeat_def emit_def logEffect_def
      setTimer_def flush_nil Let_def)

subsection \<open>C9: the state predicates\<close>

text \<open>
  C9, as stated, fails: on a client that was just constructed the state is CLOSED, yet
  \<open>isClosing\<close> is true as well as \<open>isClosed\<close>, because both getters also answer true
  whenever no handle is held.
\<close>

theorem state_predicates_counterexample:
  "readyState (constructor defaults) = 3
   \<and> isClosed (constructor defaults)
   \<and> isClosing (constructor defaults)"
  by (simp add: constructor_def isClosed_def isClosing_def)

text \<open>
  C9, amended. Whenever no handler is running the state is one of CONNECTING (0),
  OPEN (1), CLOSING (2), CLOSED (3). \<open>isOpen\<close> and \<open>isConnecting\<close> are true exactly when the
  state is OPEN and CONNECTING. \<open>isClosed\<close> is true exactly when no handle is held or the
  state is CLOSED, and \<open>isClosing\<close> exactly when no handle is held or the state is
  CLOSING. While a handle is held all four are projections of the state and at most one
  of them is true; \<open>isOpen\<close> and \<open>isConnecting\<close> are never both true.
\<close>

theorem state_predicates:
  assumes "run (constructor cfg) is = Some w"
  shows "(readyState w = 0 \<or> readyState w = 1 \<or> readyState w = 2 \<or> readyState w = 3)
    \<and> isOpen w = (readyState w = 1)
    \<and> isConnecting w = (readyState w = 0)
    \<and> isClosed w = (socket w = None \<or> readyState w = 3)
    \<and> isClosing w = (socket w = None \<or> readyState w = 2)
    \<and> \<not> (isOpen w \<and> isConnecting w)
    \<and> (socket w \<noteq> None \<longrightarrow>
         isClosed w = (readyState w = 3) \<and> isClosing w = (readyState w = 2)
         \<and> \<not> (isOpen w \<and> isClosed w) \<and> \<not> (isOpen w \<and> isClosing w)
         \<and> \<not> (isConnecting w \<and> isClosed w) \<and> \<not> (isConnecting w \<and> isClosing w)
         \<and> \<not> (isClosed w \<and> isClosing w))"
proof -
  from run_quiescent [OF assms constructor_quiescent]
  have "readyState w = 0 \<or> readyState w = 1 \<or> readyState w = 3"
    by (simp add: quiescent_def)
  then show ?thesis
    by (auto simp: isOpen_def isConnecting_def isClosed_def isClosing_def)
qed

text \<open>
  After \<open>connect()\<close> the client holds a handle and only \<open>isConnecting\<close> is true.
\<close>

theorem state_predicates_witness:
  "run (constructor defaults) [CallConnect] \<noteq> None
   \<and> map_option (\<lambda>w. (socket w, readyState w, isOpen w, isConnecting w, isClosed w, isClosing w))
       (run (constructor defaults) [CallConnect])
     = Some (Some 0, 0, False, True, False, False)"
proof -
  let ?w = "(constructor defaults)\<lparr>socket := Some 0, readyState := 0, shouldReconnect := True,
      nextSocket := 1, trace := [SocketNew 0]\<rparr>"
  have r: "run (constructor defaults) [CallConnect] = Some ?w"
    by (simp add: constructor_def defaults_def connect_def logEffect_def Let_def)
  from state_predicates [OF r] r show ?thesis
    by (simp add: constructor_def)
qed

subsection \<open>C10: the connect timeout ends reconnection\<close>

text \<open>
  C10. When a connect-timeout timer fires while the state is CONNECTING, its callback
  calls \<open>close()\<close>, which finds a handle, closes it and sets \<open>shouldReconnect\<close> to false,
  and then emits \<open>error\<close> with the timeout error. Afterwards the client is closed and,
  whatever events and timers follow, no reconnect timer is pending, no socket is
  constructed and the client stays closed until the caller calls \<open>connect()\<close> again.
\<close>

theorem connect_timeout_no_reconnect:
  assumes "run (constructor cfg) is = Some w"
    and "map_of (timers w) t = Some (ConnectTimeout ms)"
    and "readyState w = 0"
  shows "\<exists>h w1. socket w = Some h
    \<and> step w (TimerFire t now) = Some w1
    \<and> w1 = emit (EvError ConnectionTimeout) (close (expire t w))
    \<and> (\<exists>fx. trace w1 = trace w @ fx @ [SocketClose h, Emit (EvError ConnectionTimeout)])
    \<and> shouldReconnect w1 = False \<and> socket w1 = None \<and> readyState w1 = 3
    \<and> reconnectPending w1 = []
    \<and> (\<forall>js w2. CallConnect \<notin> set js \<and> run w1 js = Some w2 \<longrightarrow>
          reconnectPending w2 = [] \<and> \<not> shouldReconnect w2 \<and> socket w2 = None
          \<and> nextSocket w2 = nextSocket w \<and> isClosed w2)"
proof -
  from run_quiescent [OF assms(1) constructor_quiescent] have q: "quiescent cfg w" .
  with assms(3) obtain h where h: "socket w = Some h"
    by (auto simp: quiescent_def)
  let ?e = "expire t w"
  let ?w1 = "emit (EvError ConnectionTimeout) (close ?e)"
  have eh: "socket ?e = Some h" and es: "readyState ?e = 0"
    using h assms(3) by (simp_all add: expire_def)
  have st: "step w (TimerFire t now) = Some ?w1"
    using assms(2) es by (simp add: connectTimeoutFired_def)
  have d0: "dormant (close ?e)"
    by (rule close_dormant [OF expire_quiescent [OF q]]) (simp add: eh)
  then have d: "dormant ?w1"
    by (simp add: dormant_def reconnectPending_def emit_def)
  have tr: "\<exists>fx. trace ?w1 = trace w @ fx @ [SocketClose h, Emit (EvError ConnectionTimeout)]"
    using eh by (simp add: emit_def close_def logEffect_def Let_def expire_def)
  have rs: "readyState ?w1 = 3" and ns: "nextSocket ?w1 = nextSocket w"
    using eh by (simp_all add: emit_def close_def logEffect_def Let_def expire_def)
  have later: "reconnectPending w2 = [] \<and> \<not> shouldReconnect w2 \<and> socket w2 = None
          \<and> nextSocket w2 = nextSocket w \<and> isClosed w2"
    if "CallConnect \<notin> set js" and "run ?w1 js = Some w2" for js w2
    using run_dormant [OF that(2) d that(1)] ns by (simp add: dormant_def isClosed_def)
  from h st d tr rs later show ?thesis
    by (auto simp: dormant_def)
qed

text \<open>
  The client with a connect timeout of 5000 whose first connection is still CONNECTING
  when the timer fires; the close event of the socket follows.
\<close>

theorem connect_timeout_no_reconnect_witness:
  "run (constructor withConnectTimeout) [CallConnect] = Some connectingWithTimeout
   \<and> map_of (timers connectingWithTimeout) 0 = Some (ConnectTimeout 5000)
   \<and> readyState connectingWithTimeout = 0
   \<and> step connectingWithTimeout (TimerFire 0 5000) =
       Some (connectingWithTimeout
         \<lparr>socket := None, readyState := 3, shouldReconnect := False, timers := [],
          trace := trace connectingWithTimeout
             @ [SocketClose 0, Emit (EvError ConnectionTimeout)]\<rparr>)
   \<and> map_option (\<lambda>w. (reconnectPending w, shouldReconnect w, socket w, nextSocket w, isClosed w))
       (run connectingWithTimeout [TimerFire 0 5000, SockClose 0 1006 []])
     = Some ([], False, None, 1, True)"
proof -
  have r: "run (constructor withConnectTimeout) [CallConnect] = Some connectingWithTimeout"
    by (simp add: connectingWithTimeout_def withConnectTimeout_def constructor_def defaults_def
        orElse_def connect_def logEffect_def setTimer_def Let_def)
  have t: "map_of (timers connectingWithTimeout) 0 = Some (ConnectTimeout 5000)"
    and s: "readyState connectingWithTimeout = 0"
    by (simp_all add: connectingWithTimeout_def)
  let ?w1 = "emit (EvError ConnectionTimeout) (close (expire 0 connectingWithTimeout))"
  have w1: "?w1 = connectingWithTimeout
         \<lparr>socket := None, readyState := 3, shouldReconnect := False, timers := [],
          trace := trace connectingWithTimeout
             @ [SocketClose 0, Emit (EvError ConnectionTimeout)]\<rparr>"
    by (simp add: connectingWithTimeout_def constructor_def close_def expire_def emit_def
        clearReconnectTimer_def stopHeartbeat_def logEffect_def Let_def)
  have "\<exists>w2. run ?w1 [SockClose 0 1006 []] = Some w2"
    by (rule run_returns) simp
  then obtain w2 where r2: "run ?w1 [SockClose 0 1006 []] = Some w2" by blast
  from connect_timeout_no_reconnect [OF r t s, of 5000]
  have st: "step connectingWithTimeout (TimerFire 0 5000) = Some ?w1"
    and later: "\<And>js w2. CallConnect \<notin> set js \<Longrightarrow> run ?w1 js = Some w2 \<Longrightarrow>
          reconnectPending w2 = [] \<and> \<not> shouldReconnect w2 \<and> socket w2 = None
          \<and> nextSocket w2 = nextSocket connectingWithTimeout \<and> isClosed w2"
    by auto
  from later [OF _ r2]
  have "reconnectPending w2 = [] \<and> \<not> shouldReconnect w2 \<and> socket w2 = None
          \<and> nextSocket w2 = nextSocket connectingWithTimeout \<and> isClosed w2"
    by simp
  moreover have "run connectingWithTimeout [TimerFire 0 5000, SockClose 0 1006 []] = Some w2"
    using st r2 by simp
  ultimately show ?thesis
    using r t s st w1 by (simp add: connectingWithTimeout_def)
qed

end
